theory Spec2Isabelle
  imports Complex_Main "HOL-Library.AList" "HOL-Library.Word"
begin

section \<open>JavaScript values\<close>

text \<open>
  The primitive values that a value bag and a rule hold: \<open>undefined\<close>, \<open>null\<close>,
  booleans, numbers and strings. A number is an integer of 54 bits read with its sign,
  that is, from \<open>-2^53\<close> to \<open>2^53 - 1\<close>: each is a double. A string is a list of code
  units below 256, so that \<open>length\<close> is the JavaScript \<open>.length\<close>.

  An object is the association list of its own enumerable properties, with distinct
  keys, in the order in which \<open>Object.entries\<close> yields them. Value bags, rule
  specifications, rule objects and the registry are plain objects: their prototype is
  \<open>Object.prototype\<close>, with the members that the language defines for it.
\<close>

datatype jsval = JUndefined | JNull | JBool bool | JNum "54 word" | JStr string

datatype exn = TypeError | SyntaxError | Error string

type_synonym obj = "(string \<times> jsval) list"

text \<open>
  \<open>o.k\<close> for a key that \<open>Object.prototype\<close> does not define (as \<open>validator\<close> and
  \<open>message\<close>): a missing property reads as \<open>undefined\<close>.
\<close>

definition get_prop :: "obj \<Rightarrow> string \<Rightarrow> jsval" where
  "get_prop ob k = (case map_of ob k of None \<Rightarrow> JUndefined | Some v \<Rightarrow> v)"

text \<open>ToBoolean.\<close>

fun truthy :: "jsval \<Rightarrow> bool" where
  "truthy JUndefined = False"
| "truthy JNull = False"
| "truthy (JBool b) = b"
| "truthy (JNum n) = (n \<noteq> 0)"
| "truthy (JStr s) = (s \<noteq> [])"

subsection \<open>Strings\<close>

text \<open>The decimal digits of an integer, with a minus sign when it is negative.\<close>

definition digit_char :: "nat \<Rightarrow> char" where
  "digit_char d = ''0123456789'' ! d"

function dec :: "nat \<Rightarrow> string" where
  "dec n = (if n < 10 then [digit_char n] else dec (n div 10) @ [digit_char (n mod 10)])"
  by pat_completeness auto
termination
  by (relation "measure id") auto

declare dec.simps [simp del]

definition decimal :: "int \<Rightarrow> string" where
  "decimal i = (if i < 0 then CHR ''-'' # dec (nat (- i)) else dec (nat i))"

text \<open>
  ToString of a primitive, as a template literal, a property key and \<open>RegExp.test\<close>
  apply it. A number of the range above prints as its decimal digits.
\<close>

fun to_string :: "jsval \<Rightarrow> string" where
  "to_string JUndefined = ''undefined''"
| "to_string JNull = ''null''"
| "to_string (JBool b) = (if b then ''true'' else ''false'')"
| "to_string (JNum n) = decimal (sint n)"
| "to_string (JStr s) = s"

text \<open>
  The white space and line terminators below code unit 256: tab, line feed, vertical tab,
  form feed, carriage return, space and no-break space. This is the class \<open>\s\<close> of a
  regular expression and what \<open>trim\<close> removes.
\<close>

definition is_space :: "char \<Rightarrow> bool" where
  "is_space c = (of_char c \<in> {9, 10, 11, 12, 13, 32, 160 :: nat})"

definition is_digit :: "char \<Rightarrow> bool" where
  "is_digit c = (48 \<le> (of_char c :: nat) \<and> (of_char c :: nat) \<le> 57)"

definition trim :: "string \<Rightarrow> string" where
  "trim s = rev (dropWhile is_space (rev (dropWhile is_space s)))"

subsection \<open>Numbers in comparisons\<close>

text \<open>
  The value of a number in a comparison: NaN, a real, or an infinity. The conversion of
  a string to a number, \<open>StringToNumber\<close>, belongs to the language and is a parameter
  of the model, written \<open>ton\<close>.
\<close>

datatype number = NaN | Finite real | PosInfinity | NegInfinity

type_synonym string_to_number = "string \<Rightarrow> number"

text \<open>ToNumber of a primitive.\<close>

fun to_number :: "string_to_number \<Rightarrow> jsval \<Rightarrow> number" where
  "to_number ton JUndefined = NaN"
| "to_number ton JNull = Finite 0"
| "to_number ton (JBool b) = Finite (if b then 1 else 0)"
| "to_number ton (JNum n) = Finite (real_of_int (sint n))"
| "to_number ton (JStr s) = ton s"

text \<open>\<open>x >= y\<close> and \<open>x <= y\<close> on numbers: a comparison with NaN is false.\<close>

fun number_ge :: "number \<Rightarrow> number \<Rightarrow> bool" where
  "number_ge NaN y = False"
| "number_ge x NaN = False"
| "number_ge (Finite r) (Finite s) = (r \<ge> s)"
| "number_ge PosInfinity y = True"
| "number_ge x NegInfinity = True"
| "number_ge x y = False"

definition number_le :: "number \<Rightarrow> number \<Rightarrow> bool" where
  "number_le x y = number_ge y x"

subsection \<open>What a value bag yields\<close>

text \<open>
  \<open>formData[field]\<close> is an own property of the value bag, a primitive, or else a member
  that the bag inherits from \<open>Object.prototype\<close>: one of its built-in functions, given
  here by its name, or, for the key \<open>__proto__\<close>, the prototype object itself.
\<close>

datatype field_value = Prim jsval | Native string | ObjectPrototype

definition object_prototype :: "string \<Rightarrow> field_value option" where
  "object_prototype k =
     (if k = ''constructor'' then Some (Native ''Object'')
      else if k \<in> set [''hasOwnProperty'', ''isPrototypeOf'', ''propertyIsEnumerable'',
                         ''toLocaleString'', ''toString'', ''valueOf'', ''__defineGetter__'',
                         ''__defineSetter__'', ''__lookupGetter__'', ''__lookupSetter__'']
        then Some (Native k)
      else if k = ''__proto__'' then Some ObjectPrototype
      else None)"

definition lookup :: "obj \<Rightarrow> string \<Rightarrow> field_value" where
  "lookup ob k =
     (case map_of ob k of
        Some v \<Rightarrow> Prim v
      | None \<Rightarrow> (case object_prototype k of Some m \<Rightarrow> m | None \<Rightarrow> Prim JUndefined))"

text \<open>An object is truthy.\<close>

fun truthy_v :: "field_value \<Rightarrow> bool" where
  "truthy_v (Prim p) = truthy p"
| "truthy_v (Native n) = True"
| "truthy_v ObjectPrototype = True"

text \<open>
  ToString, which for an object is its \<open>toString()\<close>. The text of a built-in function
  is implementation-defined in its white space; this is the common form.
\<close>

fun to_string_v :: "field_value \<Rightarrow> string" where
  "to_string_v (Prim p) = to_string p"
| "to_string_v (Native n) = ''function '' @ n @ ''() { [native code] }''"
| "to_string_v ObjectPrototype = ''[object Object]''"

text \<open>ToNumber, which for an object converts that string.\<close>

fun to_number_v :: "string_to_number \<Rightarrow> field_value \<Rightarrow> number" where
  "to_number_v ton (Prim p) = to_number ton p"
| "to_number_v ton (Native n) = ton (to_string_v (Native n))"
| "to_number_v ton ObjectPrototype = ton (to_string_v ObjectPrototype)"

text \<open>The \<open>length\<close> of the built-in functions, by name.\<close>

definition native_length :: "string \<Rightarrow> nat" where
  "native_length n =
     (if n \<in> set [''toLocaleString'', ''toString'', ''valueOf'', ''get __proto__''] then 0
      else if n \<in> set [''__defineGetter__'', ''__defineSetter__''] then 2
      else 1)"

text \<open>
  \<open>value.length\<close> as a number: a string has its length and a function its number of
  parameters; anything else gives \<open>undefined\<close>, which is NaN.
\<close>

fun length_number :: "field_value \<Rightarrow> number" where
  "length_number (Prim (JStr s)) = Finite (real (length s))"
| "length_number (Prim p) = NaN"
| "length_number (Native n) = Finite (real (native_length n))"
| "length_number ObjectPrototype = NaN"

text \<open>\<open>value && x\<close>: a falsy \<open>value\<close>, which is a primitive, is the result itself.\<close>

fun js_and :: "field_value \<Rightarrow> jsval \<Rightarrow> jsval" where
  "js_and (Prim p) x = (if truthy p then x else p)"
| "js_and (Native n) x = x"
| "js_and ObjectPrototype x = x"

subsection \<open>The order of the properties of an object\<close>

text \<open>
  The language enumerates the own properties of an object with the array indices first,
  in ascending order, and the other keys after them in the order of their creation. An
  array index is the decimal numeral, without leading zeros, of a number below
  \<open>2^32 - 1\<close>. \<open>own_property_order\<close> takes the properties in the order of their
  creation and gives them in the order of enumeration.
\<close>

definition digits_value :: "string \<Rightarrow> nat" where
  "digits_value ds = foldl (\<lambda>acc c. 10 * acc + (of_char c - 48)) 0 ds"

definition is_array_index :: "string \<Rightarrow> bool" where
  "is_array_index k =
     (k \<noteq> [] \<and> list_all is_digit k \<and> (k = ''0'' \<or> hd k \<in> set ''123456789'') \<and>
      digits_value k < 2 ^ 32 - 1)"

definition own_property_order :: "(string \<times> 'v) list \<Rightarrow> (string \<times> 'v) list" where
  "own_property_order ob =
     sort_key (\<lambda>(k, v). digits_value k) (filter (\<lambda>(k, v). is_array_index k) ob) @
     filter (\<lambda>(k, v). \<not> is_array_index k) ob"

text \<open>
  \<open>o[k] = v\<close> on an object made by \<open>{}\<close>: the key \<open>__proto__\<close> is the accessor of
  \<open>Object.prototype\<close>, so that the assignment creates no property; any other key is
  created, or overwritten in place.
\<close>

definition store :: "string \<Rightarrow> jsval \<Rightarrow> obj \<Rightarrow> obj" where
  "store k v ob = (if k = ''__proto__'' then ob else AList.update k v ob)"

section \<open>Regular expressions\<close>

text \<open>
  The fragment of regular expressions the validators use, matched by derivatives. An
  atom is a character class given by its items; \<open>NoneOf\<close> is a negated class.
\<close>

datatype item = Lit char | FromTo char char | Space | Digit

fun in_item :: "char \<Rightarrow> item \<Rightarrow> bool" where
  "in_item c (Lit d) = (c = d)"
| "in_item c (FromTo lo hi) = ((of_char lo :: nat) \<le> of_char c \<and> (of_char c :: nat) \<le> of_char hi)"
| "in_item c Space = is_space c"
| "in_item c Digit = is_digit c"

datatype rexp =
    Zero
  | One
  | OneOf "item list"
  | NoneOf "item list"
  | Alt rexp rexp
  | Seq rexp rexp
  | Star rexp

fun nullable :: "rexp \<Rightarrow> bool" where
  "nullable Zero = False"
| "nullable One = True"
| "nullable (OneOf cs) = False"
| "nullable (NoneOf cs) = False"
| "nullable (Alt r s) = (nullable r \<or> nullable s)"
| "nullable (Seq r s) = (nullable r \<and> nullable s)"
| "nullable (Star r) = True"

fun deriv :: "char \<Rightarrow> rexp \<Rightarrow> rexp" where
  "deriv c Zero = Zero"
| "deriv c One = Zero"
| "deriv c (OneOf cs) = (if list_ex (in_item c) cs then One else Zero)"
| "deriv c (NoneOf cs) = (if list_ex (in_item c) cs then Zero else One)"
| "deriv c (Alt r s) = Alt (deriv c r) (deriv c s)"
| "deriv c (Seq r s) =
     (if nullable r then Alt (Seq (deriv c r) s) (deriv c s) else Seq (deriv c r) s)"
| "deriv c (Star r) = Seq (deriv c r) (Star r)"

text \<open>\<open>/^r$/.test(s)\<close>: the whole of \<open>s\<close> matches \<open>r\<close>.\<close>

definition test :: "rexp \<Rightarrow> string \<Rightarrow> bool" where
  "test r s = nullable (foldl (\<lambda>q c. deriv c q) r s)"

text \<open>\<open>r?\<close>, \<open>r+\<close> and \<open>r{0,n}\<close>.\<close>

definition Opt :: "rexp \<Rightarrow> rexp" where
  "Opt r = Alt One r"

definition Plus :: "rexp \<Rightarrow> rexp" where
  "Plus r = Seq r (Star r)"

fun UpTo :: "nat \<Rightarrow> rexp \<Rightarrow> rexp" where
  "UpTo 0 r = One"
| "UpTo (Suc n) r = Alt One (Seq r (UpTo n r))"

text \<open>\<open>s.replace(/[cs]/g, "")\<close>: every code unit of the class is dropped.\<close>

definition strip :: "item list \<Rightarrow> string \<Rightarrow> string" where
  "strip cs s = filter (\<lambda>c. \<not> list_ex (in_item c) cs) s"

text \<open>
  The language of a regular expression, to state what the derivative matcher decides.
\<close>

inductive_set star :: "string set \<Rightarrow> string set" for A :: "string set" where
  star_empty: "[] \<in> star A"
| star_step: "u \<in> A \<Longrightarrow> v \<in> star A \<Longrightarrow> u @ v \<in> star A"

fun lang :: "rexp \<Rightarrow> string set" where
  "lang Zero = {}"
| "lang One = {[]}"
| "lang (OneOf cs) = {[c] | c. list_ex (in_item c) cs}"
| "lang (NoneOf cs) = {[c] | c. \<not> list_ex (in_item c) cs}"
| "lang (Alt r s) = lang r \<union> lang s"
| "lang (Seq r s) = {u @ v | u v. u \<in> lang r \<and> v \<in> lang s}"
| "lang (Star r) = star (lang r)"

text \<open>
  A phone number as the specification words it: an optional leading \<open>+\<close>, then a digit
  that is not zero, then at most 15 more digits.
\<close>

definition phone_shape :: "string \<Rightarrow> bool" where
  "phone_shape s =
     (let t = (if s \<noteq> [] \<and> hd s = CHR ''+'' then tl s else s)
      in t \<noteq> [] \<and> is_digit (hd t) \<and> hd t \<noteq> CHR ''0'' \<and> list_all is_digit (tl t)
         \<and> length (tl t) \<le> 15)"

section \<open>Validator registry of \<^verbatim>\<open>src/utils.js\<close>\<close>

text \<open>\<open>value && value.toString().trim() !== ""\<close>\<close>

definition required :: "field_value \<Rightarrow> jsval" where
  "required v = js_and v (JBool (trim (to_string_v v) \<noteq> []))"

text \<open>\<open>/^[^\s@]+@[^\s@]+\.[^\s@]+$/\<close>\<close>

definition emailRegex :: rexp where
  "emailRegex =
     Seq (Plus (NoneOf [Space, Lit CHR ''@'']))
       (Seq (OneOf [Lit CHR ''@''])
         (Seq (Plus (NoneOf [Space, Lit CHR ''@'']))
           (Seq (OneOf [Lit CHR ''.'']) (Plus (NoneOf [Space, Lit CHR ''@''])))))"

definition email :: "field_value \<Rightarrow> jsval" where
  "email v = JBool (test emailRegex (to_string_v v))"

text \<open>\<open>/^[+]?[1-9][\d]{0,15}$/\<close>\<close>

definition phoneRegex :: rexp where
  "phoneRegex =
     Seq (Opt (OneOf [Lit CHR ''+'']))
       (Seq (OneOf [FromTo CHR ''1'' CHR ''9'']) (UpTo 15 (OneOf [Digit])))"

text \<open>
  \<open>phoneRegex.test(value.replace(/[\s\-$$$$]/g, ""))\<close>: the class holds white space, the
  dash and the dollar sign. \<open>value.replace\<close> exists on a string only.
\<close>

definition phone :: "field_value \<Rightarrow> exn + jsval" where
  "phone v =
     (case v of
        Prim (JStr s) \<Rightarrow>
          Inr (JBool (test phoneRegex
            (strip [Space, Lit CHR ''-'', Lit CHR ''$'', Lit CHR ''$'', Lit CHR ''$'', Lit CHR ''$''] s)))
      | _ \<Rightarrow> Inl TypeError)"

text \<open>\<open>(min) => (value) => value && value.length >= min\<close>\<close>

definition minLength :: "string_to_number \<Rightarrow> field_value \<Rightarrow> field_value \<Rightarrow> jsval" where
  "minLength ton mn v = js_and v (JBool (number_ge (length_number v) (to_number_v ton mn)))"

text \<open>\<open>(max) => (value) => !value || value.length <= max\<close>\<close>

definition maxLength :: "string_to_number \<Rightarrow> field_value \<Rightarrow> field_value \<Rightarrow> jsval" where
  "maxLength ton mx v =
     (if \<not> truthy_v v then JBool True
      else JBool (number_le (length_number v) (to_number_v ton mx)))"

text \<open>
  What a property of the registry is, and what a call returns: a value, an object that
  is not a function (the registry itself, a wrapper, a new object), or a function of the
  registry, which takes one argument and may throw.
\<close>

datatype vres = Val field_value | Obj | Fun "field_value \<Rightarrow> exn + vres"

text \<open>An object and a function are truthy.\<close>

fun truthy_res :: "vres \<Rightarrow> bool" where
  "truthy_res (Val v) = truthy_v v"
| "truthy_res Obj = True"
| "truthy_res (Fun g) = True"

text \<open>
  A built-in function of \<open>Object.prototype\<close> called on its own, so that \<open>this\<close> is
  \<open>undefined\<close>: \<open>Object\<close> returns an object for every argument (the argument itself
  when it is one), \<open>toString\<close> names \<open>undefined\<close>, \<open>isPrototypeOf\<close> answers \<open>false\<close> for
  a primitive, and every other call converts \<open>this\<close> to an object, which throws.
\<close>

definition call_native :: "string \<Rightarrow> field_value \<Rightarrow> exn + vres" where
  "call_native n v =
     (if n = ''Object'' then (case v of Prim p \<Rightarrow> Inr Obj | _ \<Rightarrow> Inr (Val v))
      else if n = ''toString'' then Inr (Val (Prim (JStr ''[object Undefined]'')))
      else if n = ''isPrototypeOf''
        then (case v of Prim p \<Rightarrow> Inr (Val (Prim (JBool False))) | _ \<Rightarrow> Inl TypeError)
      else Inl TypeError)"

text \<open>\<open>f(x)\<close>: calling what is not a function is a type error.\<close>

fun call :: "vres \<Rightarrow> field_value \<Rightarrow> exn + vres" where
  "call (Fun g) x = g x"
| "call (Val (Native n)) x = call_native n x"
| "call (Val v) x = Inl TypeError"
| "call Obj x = Inl TypeError"

text \<open>The names of the registry's own entries.\<close>

definition own_names :: "string list" where
  "own_names = [''required'', ''email'', ''phone'', ''minLength'', ''maxLength'']"

text \<open>
  \<open>validators[name]\<close>: one of the five entries, or a member inherited from
  \<open>Object.prototype\<close>, here as it behaves when called as \<open>validators[name](x)\<close>, with the
  registry as \<open>this\<close>; \<open>undefined\<close> for any other name. Of the inherited members,
  \<open>hasOwnProperty\<close> and \<open>propertyIsEnumerable\<close> tell whether the argument, as a key,
  names an own entry; \<open>isPrototypeOf\<close> is false, the registry being nobody's prototype;
  \<open>toString\<close> and \<open>toLocaleString\<close> give \<open>[object Object]\<close>; \<open>valueOf\<close> gives the
  registry; \<open>__defineGetter__\<close> and \<open>__defineSetter__\<close> throw for want of a function as
  second argument; \<open>__lookupGetter__\<close> and \<open>__lookupSetter__\<close> find an accessor only for
  the key \<open>__proto__\<close>; and \<open>__proto__\<close> is the prototype object, not a function.
\<close>

definition validators :: "string_to_number \<Rightarrow> string \<Rightarrow> vres" where
  "validators ton name =
     (if name = ''required'' then Fun (\<lambda>v. Inr (Val (Prim (required v))))
      else if name = ''email'' then Fun (\<lambda>v. Inr (Val (Prim (email v))))
      else if name = ''phone'' then Fun (\<lambda>v. map_sum id (\<lambda>r. Val (Prim r)) (phone v))
      else if name = ''minLength''
        then Fun (\<lambda>mn. Inr (Fun (\<lambda>v. Inr (Val (Prim (minLength ton mn v))))))
      else if name = ''maxLength''
        then Fun (\<lambda>mx. Inr (Fun (\<lambda>v. Inr (Val (Prim (maxLength ton mx v))))))
      else if name = ''constructor'' then Fun (call_native ''Object'')
      else if name = ''hasOwnProperty'' \<or> name = ''propertyIsEnumerable''
        then Fun (\<lambda>v. Inr (Val (Prim (JBool (to_string_v v \<in> set own_names)))))
      else if name = ''isPrototypeOf'' then Fun (\<lambda>v. Inr (Val (Prim (JBool False))))
      else if name = ''toString'' \<or> name = ''toLocaleString''
        then Fun (\<lambda>v. Inr (Val (Prim (JStr ''[object Object]''))))
      else if name = ''valueOf'' then Fun (\<lambda>v. Inr Obj)
      else if name = ''__defineGetter__'' \<or> name = ''__defineSetter__''
        then Fun (\<lambda>v. Inl TypeError)
      else if name = ''__lookupGetter__''
        then Fun (\<lambda>v. Inr (Val (if to_string_v v = ''__proto__'' then Native ''get __proto__''
                                  else Prim JUndefined)))
      else if name = ''__lookupSetter__''
        then Fun (\<lambda>v. Inr (Val (if to_string_v v = ''__proto__'' then Native ''set __proto__''
                                  else Prim JUndefined)))
      else if name = ''__proto__'' then Val ObjectPrototype
      else Val (Prim JUndefined))"

section \<open>Form validation of \<^verbatim>\<open>src/utils.js\<close>\<close>

text \<open>
  A rule is a primitive (\<open>typeof\<close> is \<open>"string"\<close> for a string and \<open>"object"\<close> for
  \<open>null\<close>), an object whose properties are primitives, given in the order of
  enumeration (\<open>own_property_order\<close> of the properties as written), or a function,
  which returns a primitive or throws.
\<close>

datatype rule = RVal jsval | RObj obj | RFun "field_value \<Rightarrow> exn + jsval"

text \<open>\<open>const { validator, message, ...params } = rule\<close>: the rest of the properties, in order.\<close>

definition rest_params :: "obj \<Rightarrow> obj" where
  "rest_params ob = filter (\<lambda>(k, v). k \<noteq> ''validator'' \<and> k \<noteq> ''message'') ob"

text \<open>\<open>Object.values(params)[0]\<close>: \<open>undefined\<close> when there is none.\<close>

definition first_value :: "obj \<Rightarrow> jsval" where
  "first_value ob = (case ob of [] \<Rightarrow> JUndefined | (k, v) # _ \<Rightarrow> v)"

text \<open>
  The body of the inner loop for one rule: \<open>Inr (Some msg)\<close> when the rule fails and
  \<open>msg\<close> is assigned before the \<open>break\<close>, \<open>Inr None\<close> when the loop goes on, \<open>Inl\<close>
  when the evaluation throws. Destructuring \<open>null\<close> is a type error. A rule that is
  neither a string nor an object is passed over.
\<close>

fun apply_rule :: "string_to_number \<Rightarrow> string \<Rightarrow> field_value \<Rightarrow> rule \<Rightarrow> exn + jsval option" where
  "apply_rule ton field v (RVal (JStr r)) =
     (case call (validators ton r) v of
        Inl e \<Rightarrow> Inl e
      | Inr res \<Rightarrow>
          if \<not> truthy_res res then Inr (Some (JStr (field @ '' is '' @ r))) else Inr None)"
| "apply_rule ton field v (RVal JNull) = Inl TypeError"
| "apply_rule ton field v (RObj ob) =
     (let validator = get_prop ob ''validator'';
          message = get_prop ob ''message'';
          params = rest_params ob
      in case call (validators ton (to_string validator)) (Prim (first_value params)) of
           Inl e \<Rightarrow> Inl e
         | Inr h \<Rightarrow>
             (case call h v of
                Inl e \<Rightarrow> Inl e
              | Inr res \<Rightarrow>
                  if \<not> truthy_res res
                  then Inr (Some (if truthy message then message
                                  else JStr (field @ '' validation failed'')))
                  else Inr None))"
| "apply_rule ton field v (RVal w) = Inr None"
| "apply_rule ton field v (RFun g) = Inr None"

text \<open>\<open>for (const rule of fieldRules)\<close>, with \<open>errors\<close> as the state.\<close>

fun check_rules ::
  "string_to_number \<Rightarrow> string \<Rightarrow> field_value \<Rightarrow> rule list \<Rightarrow> obj \<Rightarrow> exn + obj" where
  "check_rules ton field v [] errs = Inr errs"
| "check_rules ton field v (rule # rest) errs =
     (case apply_rule ton field v rule of
        Inl e \<Rightarrow> Inl e
      | Inr (Some msg) \<Rightarrow> Inr (store field msg errs)
      | Inr None \<Rightarrow> check_rules ton field v rest errs)"

text \<open>\<open>for (const [field, fieldRules] of Object.entries(rules))\<close>\<close>

fun check_fields ::
  "string_to_number \<Rightarrow> obj \<Rightarrow> (string \<times> rule list) list \<Rightarrow> obj \<Rightarrow> exn + obj" where
  "check_fields ton formData [] errs = Inr errs"
| "check_fields ton formData ((field, fieldRules) # others) errs =
     (case check_rules ton field (lookup formData field) fieldRules errs of
        Inl e \<Rightarrow> Inl e
      | Inr errs' \<Rightarrow> check_fields ton formData others errs')"

text \<open>
  \<open>{ isValid: Object.keys(errors).length === 0, errors }\<close>, the mapping with its keys
  in the order of their creation.
\<close>

record validation =
  isValid :: bool
  errors :: obj

definition validateForm ::
  "string_to_number \<Rightarrow> obj \<Rightarrow> (string \<times> rule list) list \<Rightarrow> exn + validation" where
  "validateForm ton formData rules =
     (case check_fields ton formData rules [] of
        Inl e \<Rightarrow> Inl e
      | Inr errs \<Rightarrow> Inr \<lparr>isValid = (length (map fst errs) = 0), errors = errs\<rparr>)"

text \<open>
  The outcome of an ordered rule list, as a short-circuiting fold: the message of the
  first rule that fails, \<open>None\<close> when every rule passes, and the exception when a rule
  throws before any has failed. The theorems compare the loops with it.
\<close>

fun first_failure :: "('r \<Rightarrow> exn + jsval option) \<Rightarrow> 'r list \<Rightarrow> exn + jsval option" where
  "first_failure ap [] = Inr None"
| "first_failure ap (r # rs) =
     (case ap r of
        Inl e \<Rightarrow> Inl e
      | Inr (Some m) \<Rightarrow> Inr (Some m)
      | Inr None \<Rightarrow> first_failure ap rs)"

text \<open>
  The same for a whole rule specification: each field in turn, its value looked up in
  the value bag, the first failure assigned under the field name. \<open>ap\<close> evaluates one
  rule of a field on a value.
\<close>

fun record_failures ::
  "(string \<Rightarrow> field_value \<Rightarrow> 'r \<Rightarrow> exn + jsval option) \<Rightarrow> obj \<Rightarrow> (string \<times> 'r list) list \<Rightarrow> obj
     \<Rightarrow> exn + obj" where
  "record_failures ap V [] errs = Inr errs"
| "record_failures ap V ((f, rs) # R) errs =
     (case first_failure (ap f (lookup V f)) rs of
        Inl e \<Rightarrow> Inl e
      | Inr None \<Rightarrow> record_failures ap V R errs
      | Inr (Some m) \<Rightarrow> record_failures ap V R (store f m errs))"

section \<open>Validators and form validation of \<^verbatim>\<open>src/js/utils.js\<close>\<close>

text \<open>
  Here a validator returns \<open>null\<close> or the message. \<open>value.trim\<close> and \<open>value.replace\<close>
  exist on a string only.
\<close>

definition required_js :: "field_value \<Rightarrow> exn + jsval" where
  "required_js v =
     (if truthy_v v
      then (case v of
              Prim (JStr s) \<Rightarrow> Inr (if trim s \<noteq> [] then JNull else JStr ''This field is required'')
            | _ \<Rightarrow> Inl TypeError)
      else Inr (JStr ''This field is required''))"

definition email_js :: "field_value \<Rightarrow> exn + jsval" where
  "email_js v =
     Inr (if test emailRegex (to_string_v v) then JNull
          else JStr ''Please enter a valid email address'')"

text \<open>\<open>phoneRegex.test(value.replace(/\s/g, ""))\<close>\<close>

definition phone_js :: "field_value \<Rightarrow> exn + jsval" where
  "phone_js v =
     (case v of
        Prim (JStr s) \<Rightarrow>
          Inr (if test phoneRegex (strip [Space] s) then JNull
               else JStr ''Please enter a valid phone number'')
      | _ \<Rightarrow> Inl TypeError)"

text \<open>The bound \<open>min\<close> is the caller's, a primitive.\<close>

definition minLength_js :: "string_to_number \<Rightarrow> jsval \<Rightarrow> field_value \<Rightarrow> exn + jsval" where
  "minLength_js ton mn v =
     Inr (if truthy_v v \<and> number_ge (length_number v) (to_number ton mn) then JNull
          else JStr (''Must be at least '' @ to_string mn @ '' characters''))"

text \<open>
  \<open>const error = rule(value); if (error) { errors[field] = error; break }\<close>: calling a
  rule that is not a function is a type error.
\<close>

fun apply_rule_js :: "field_value \<Rightarrow> rule \<Rightarrow> exn + jsval option" where
  "apply_rule_js v (RFun g) =
     (case g v of
        Inl e \<Rightarrow> Inl e
      | Inr err \<Rightarrow> if truthy err then Inr (Some err) else Inr None)"
| "apply_rule_js v (RVal w) = Inl TypeError"
| "apply_rule_js v (RObj ob) = Inl TypeError"

fun check_rules_js :: "string \<Rightarrow> field_value \<Rightarrow> rule list \<Rightarrow> obj \<Rightarrow> exn + obj" where
  "check_rules_js field v [] errs = Inr errs"
| "check_rules_js field v (rule # rest) errs =
     (case apply_rule_js v rule of
        Inl e \<Rightarrow> Inl e
      | Inr (Some err) \<Rightarrow> Inr (store field err errs)
      | Inr None \<Rightarrow> check_rules_js field v rest errs)"

fun check_fields_js :: "obj \<Rightarrow> (string \<times> rule list) list \<Rightarrow> obj \<Rightarrow> exn + obj" where
  "check_fields_js formData [] errs = Inr errs"
| "check_fields_js formData ((field, fieldRules) # others) errs =
     (case check_rules_js field (lookup formData field) fieldRules errs of
        Inl e \<Rightarrow> Inl e
      | Inr errs' \<Rightarrow> check_fields_js formData others errs')"

definition validateForm_js :: "obj \<Rightarrow> (string \<times> rule list) list \<Rightarrow> exn + obj" where
  "validateForm_js formData rules = check_fields_js formData rules []"

section \<open>Network client\<close>

text \<open>
  JSON data, the configuration handed to the transport and its response. An option
  that is \<open>Some\<close> is an own property of the options object. The transport \<open>fetch\<close> and
  the serialiser \<open>JSON.stringify\<close> belong to the runtime and are parameters; the
  response carries what \<open>response.json()\<close> settles to, the parsed body or the error of
  the parser, and its status, which the Fetch standard makes an unsigned short.
  \<open>console.error\<close> appends the error to a log.
\<close>

datatype json =
    JsNull
  | JsBool bool
  | JsNum int
  | JsStr string
  | JsArr "json list"
  | JsObj "(string \<times> json) list"

type_synonym headers = "(string \<times> string) list"

record options =
  opt_headers :: "headers option"
  opt_method :: "string option"
  opt_body :: "json option"

record config =
  cfg_headers :: headers
  cfg_method :: "string option"
  cfg_body :: "json option"

record response =
  ok :: bool
  status :: "16 word"
  json_body :: "exn + json"

type_synonym transport = "string \<Rightarrow> config \<Rightarrow> exn + response"

text \<open>\<open>{ ...base, ...extra }\<close> on string-keyed objects: a later key overrides in place.\<close>

definition spread :: "('k \<times> 'v) list \<Rightarrow> ('k \<times> 'v) list \<Rightarrow> ('k \<times> 'v) list" where
  "spread base extra = foldl (\<lambda>acc (k, v). AList.update k v acc) base extra"

text \<open>\<open>{ headers: h, ...options }\<close>: every own property of \<open>options\<close> overrides.\<close>

definition spread_options :: "headers \<Rightarrow> options \<Rightarrow> config" where
  "spread_options h opts =
     \<lparr>cfg_headers = (case opt_headers opts of Some oh \<Rightarrow> oh | None \<Rightarrow> h),
      cfg_method = opt_method opts,
      cfg_body = opt_body opts\<rparr>"

definition make_config :: "options \<Rightarrow> config" where
  "make_config opts =
     spread_options
       (spread [(''Content-Type'', ''application/json'')]
          (case opt_headers opts of Some oh \<Rightarrow> oh | None \<Rightarrow> []))
       opts"

text \<open>\<open>config.body && typeof config.body === "object"\<close>: an array or an object.\<close>

fun is_object :: "json \<Rightarrow> bool" where
  "is_object (JsArr xs) = True"
| "is_object (JsObj ps) = True"
| "is_object _ = False"

definition stringify_body :: "(json \<Rightarrow> string) \<Rightarrow> config \<Rightarrow> config" where
  "stringify_body stringify cfg =
     (case cfg_body cfg of
        Some b \<Rightarrow> if is_object b then cfg\<lparr>cfg_body := Some (JsStr (stringify b))\<rparr> else cfg
      | None \<Rightarrow> cfg)"

text \<open>
  The \<open>try\<close> block and its \<open>catch\<close>: whatever is thrown inside is logged and thrown
  again.
\<close>

definition try_fetch :: "transport \<Rightarrow> string \<Rightarrow> config \<Rightarrow> exn + json" where
  "try_fetch fetch url cfg =
     (case fetch url cfg of
        Inl e \<Rightarrow> Inl e
      | Inr resp \<Rightarrow>
          if \<not> ok resp then Inl (Error (''HTTP error! status: '' @ decimal (uint (status resp))))
          else json_body resp)"

definition log_and_rethrow :: "exn + json \<Rightarrow> exn list \<Rightarrow> (exn + json) \<times> exn list" where
  "log_and_rethrow r lg = (case r of Inl e \<Rightarrow> (Inl e, lg @ [e]) | Inr v \<Rightarrow> (Inr v, lg))"

subsection \<open>\<^verbatim>\<open>ApiClient\<close> of \<^verbatim>\<open>src/utils.js\<close>\<close>

definition request ::
  "transport \<Rightarrow> (json \<Rightarrow> string) \<Rightarrow> jsval \<Rightarrow> string \<Rightarrow> options \<Rightarrow> exn list
     \<Rightarrow> (exn + json) \<times> exn list" where
  "request fetch stringify baseUrl endpoint opts lg =
     (let url = to_string baseUrl @ endpoint;
          cfg = stringify_body stringify (make_config opts)
      in log_and_rethrow (try_fetch fetch url cfg) lg)"

definition no_options :: options where
  "no_options = \<lparr>opt_headers = None, opt_method = None, opt_body = None\<rparr>"

definition api_get ::
  "transport \<Rightarrow> (json \<Rightarrow> string) \<Rightarrow> jsval \<Rightarrow> string \<Rightarrow> exn list \<Rightarrow> (exn + json) \<times> exn list" where
  "api_get fetch stringify baseUrl endpoint lg =
     request fetch stringify baseUrl endpoint (no_options\<lparr>opt_method := Some ''GET''\<rparr>) lg"

text \<open>\<open>data\<close> is \<open>None\<close> when the caller passes none (\<open>undefined\<close>).\<close>

definition api_post ::
  "transport \<Rightarrow> (json \<Rightarrow> string) \<Rightarrow> jsval \<Rightarrow> string \<Rightarrow> json option \<Rightarrow> exn list
     \<Rightarrow> (exn + json) \<times> exn list" where
  "api_post fetch stringify baseUrl endpoint data lg =
     request fetch stringify baseUrl endpoint
       (no_options\<lparr>opt_method := Some ''POST'', opt_body := data\<rparr>) lg"

definition api_put ::
  "transport \<Rightarrow> (json \<Rightarrow> string) \<Rightarrow> jsval \<Rightarrow> string \<Rightarrow> json option \<Rightarrow> exn list
     \<Rightarrow> (exn + json) \<times> exn list" where
  "api_put fetch stringify baseUrl endpoint data lg =
     request fetch stringify baseUrl endpoint
       (no_options\<lparr>opt_method := Some ''PUT'', opt_body := data\<rparr>) lg"

definition api_delete ::
  "transport \<Rightarrow> (json \<Rightarrow> string) \<Rightarrow> jsval \<Rightarrow> string \<Rightarrow> exn list \<Rightarrow> (exn + json) \<times> exn list" where
  "api_delete fetch stringify baseUrl endpoint lg =
     request fetch stringify baseUrl endpoint (no_options\<lparr>opt_method := Some ''DELETE''\<rparr>) lg"

subsection \<open>\<^verbatim>\<open>APIClient\<close> of \<^verbatim>\<open>src/js/utils.js\<close>\<close>

text \<open>Here \<open>request\<close> leaves the body alone and the verbs serialise it.\<close>

definition request_js ::
  "transport \<Rightarrow> jsval \<Rightarrow> string \<Rightarrow> options \<Rightarrow> exn list \<Rightarrow> (exn + json) \<times> exn list" where
  "request_js fetch baseURL endpoint opts lg =
     (let url = to_string baseURL @ endpoint;
          cfg = make_config opts
      in log_and_rethrow (try_fetch fetch url cfg) lg)"

definition get_js ::
  "transport \<Rightarrow> jsval \<Rightarrow> string \<Rightarrow> exn list \<Rightarrow> (exn + json) \<times> exn list" where
  "get_js fetch baseURL endpoint lg = request_js fetch baseURL endpoint no_options lg"

definition post_js ::
  "transport \<Rightarrow> (json \<Rightarrow> string) \<Rightarrow> jsval \<Rightarrow> string \<Rightarrow> json option \<Rightarrow> exn list
     \<Rightarrow> (exn + json) \<times> exn list" where
  "post_js fetch stringify baseURL endpoint data lg =
     request_js fetch baseURL endpoint
       (no_options\<lparr>opt_method := Some ''POST'',
                    opt_body := map_option (\<lambda>d. JsStr (stringify d)) data\<rparr>) lg"

definition put_js ::
  "transport \<Rightarrow> (json \<Rightarrow> string) \<Rightarrow> jsval \<Rightarrow> string \<Rightarrow> json option \<Rightarrow> exn list
     \<Rightarrow> (exn + json) \<times> exn list" where
  "put_js fetch stringify baseURL endpoint data lg =
     request_js fetch baseURL endpoint
       (no_options\<lparr>opt_method := Some ''PUT'',
                    opt_body := map_option (\<lambda>d. JsStr (stringify d)) data\<rparr>) lg"

definition delete_js ::
  "transport \<Rightarrow> jsval \<Rightarrow> string \<Rightarrow> exn list \<Rightarrow> (exn + json) \<times> exn list" where
  "delete_js fetch baseURL endpoint lg =
     request_js fetch baseURL endpoint (no_options\<lparr>opt_method := Some ''DELETE''\<rparr>) lg"

text \<open>A transport that answers with the URL and the headers it was given.\<close>

definition echo :: transport where
  "echo url cfg =
     Inr \<lparr>ok = True, status = 200,
          json_body = Inr (JsObj [(''url'', JsStr url),
                                  (''headers'', JsObj (map (\<lambda>(k, v). (k, JsStr v)) (cfg_headers cfg)))])\<rparr>"

section \<open>Document tree\<close>

text \<open>
  An element carries an identity \<open>uid\<close>, which is what a JavaScript reference to it
  holds, its tag, its \<open>id\<close>, its class list, its other attributes and the \<open>disabled\<close>
  property. The page is the content of \<open>head\<close> and of \<open>body\<close> (the \<open>html\<close>, \<open>head\<close>
  and \<open>body\<close> elements themselves carry no id and no class), the value of
  \<open>document.body.style.overflow\<close>, the next unused identity and the pending timers,
  each with the notification it removes and its delay.
\<close>

record elem =
  uid :: nat
  tagName :: string
  ident :: "string option"
  classList :: "string list"
  attrs :: "(string \<times> string) list"
  disabled :: bool

datatype node = Text string | Elem elem "node list"

record page =
  head :: "node list"
  body :: "node list"
  overflow :: string
  fresh :: nat
  timers :: "(nat \<times> nat) list"

text \<open>
  Markup as the HTML parser reads it: text, or an element with its tag, id, classes and
  children. Setting \<open>innerHTML\<close> creates the nodes, each with a new identity.
\<close>

datatype html = HText string | HElem string "string option" "string list" "html list"

fun build :: "html \<Rightarrow> nat \<Rightarrow> node \<times> nat"
  and build_all :: "html list \<Rightarrow> nat \<Rightarrow> node list \<times> nat" where
  "build (HText s) n = (Text s, n)"
| "build (HElem t i cs hs) n =
     (case build_all hs (Suc n) of
        (ks, n') \<Rightarrow>
          (Elem \<lparr>uid = n, tagName = t, ident = i, classList = cs, attrs = [], disabled = False\<rparr> ks,
           n'))"
| "build_all [] n = ([], n)"
| "build_all (h # hs) n =
     (case build h n of (x, n1) \<Rightarrow> (case build_all hs n1 of (xs, n2) \<Rightarrow> (x # xs, n2)))"

subsection \<open>Lookup\<close>

text \<open>The first element in tree order that satisfies \<open>P\<close>.\<close>

fun find_node :: "(elem \<Rightarrow> bool) \<Rightarrow> node \<Rightarrow> elem option"
  and find_forest :: "(elem \<Rightarrow> bool) \<Rightarrow> node list \<Rightarrow> elem option" where
  "find_node P (Text s) = None"
| "find_node P (Elem e ks) = (if P e then Some e else find_forest P ks)"
| "find_forest P [] = None"
| "find_forest P (x # xs) =
     (case find_node P x of Some e \<Rightarrow> Some e | None \<Rightarrow> find_forest P xs)"

definition find_page :: "(elem \<Rightarrow> bool) \<Rightarrow> page \<Rightarrow> elem option" where
  "find_page P p =
     (case find_forest P (head p) of Some e \<Rightarrow> Some e | None \<Rightarrow> find_forest P (body p))"

text \<open>\<open>document.getElementById(id)\<close>; the empty id finds nothing.\<close>

definition getElementById :: "string \<Rightarrow> page \<Rightarrow> elem option" where
  "getElementById i p = (if i = [] then None else find_page (\<lambda>e. ident e = Some i) p)"

text \<open>\<open>document.querySelector\<close> for the selectors \<open>#id\<close> and \<open>.class\<close>.\<close>

datatype selector = ById string | ByClass string

fun selects :: "selector \<Rightarrow> elem \<Rightarrow> bool" where
  "selects (ById i) e = (ident e = Some i)"
| "selects (ByClass c) e = (c \<in> set (classList e))"

definition querySelector :: "selector \<Rightarrow> page \<Rightarrow> elem option" where
  "querySelector sel p = find_page (selects sel) p"

subsection \<open>Mutation through a reference\<close>

text \<open>
  \<open>f\<close> is applied to the element whose identity is \<open>u\<close>. Identities are unique in a
  document, so at most one element changes.
\<close>

fun map_node :: "nat \<Rightarrow> (node \<Rightarrow> node) \<Rightarrow> node \<Rightarrow> node" where
  "map_node u f (Text s) = Text s"
| "map_node u f (Elem e ks) =
     (if uid e = u then f (Elem e (map (map_node u f) ks)) else Elem e (map (map_node u f) ks))"

definition update_elem :: "nat \<Rightarrow> (node \<Rightarrow> node) \<Rightarrow> page \<Rightarrow> page" where
  "update_elem u f p = p\<lparr>head := map (map_node u f) (head p), body := map (map_node u f) (body p)\<rparr>"

fun has_uid :: "nat \<Rightarrow> node \<Rightarrow> bool" where
  "has_uid u (Text s) = False"
| "has_uid u (Elem e ks) = (uid e = u)"

text \<open>\<open>node.remove()\<close>: the node leaves its parent, with its subtree.\<close>

fun remove_node :: "nat \<Rightarrow> node \<Rightarrow> node" where
  "remove_node u (Text s) = Text s"
| "remove_node u (Elem e ks) = Elem e (map (remove_node u) (filter (\<lambda>k. \<not> has_uid u k) ks))"

definition remove_forest :: "nat \<Rightarrow> node list \<Rightarrow> node list" where
  "remove_forest u xs = map (remove_node u) (filter (\<lambda>k. \<not> has_uid u k) xs)"

definition remove_elem :: "nat \<Rightarrow> page \<Rightarrow> page" where
  "remove_elem u p = p\<lparr>head := remove_forest u (head p), body := remove_forest u (body p)\<rparr>"

text \<open>\<open>classList.remove\<close>, \<open>classList.add\<close> and \<open>classList.toggle\<close>.\<close>

fun classList_remove :: "string \<Rightarrow> node \<Rightarrow> node" where
  "classList_remove c (Text s) = Text s"
| "classList_remove c (Elem e ks) = Elem (e\<lparr>classList := removeAll c (classList e)\<rparr>) ks"

fun classList_add :: "string \<Rightarrow> node \<Rightarrow> node" where
  "classList_add c (Text s) = Text s"
| "classList_add c (Elem e ks) =
     (if c \<in> set (classList e) then Elem e ks else Elem (e\<lparr>classList := classList e @ [c]\<rparr>) ks)"

fun classList_toggle :: "string \<Rightarrow> node \<Rightarrow> node" where
  "classList_toggle c (Text s) = Text s"
| "classList_toggle c (Elem e ks) =
     (if c \<in> set (classList e) then classList_remove c (Elem e ks) else classList_add c (Elem e ks))"

fun set_kids :: "node list \<Rightarrow> node \<Rightarrow> node" where
  "set_kids ks' (Text s) = Text s"
| "set_kids ks' (Elem e ks) = Elem e ks'"

fun set_disabled :: "bool \<Rightarrow> node \<Rightarrow> node" where
  "set_disabled b (Text s) = Text s"
| "set_disabled b (Elem e ks) = Elem (e\<lparr>disabled := b\<rparr>) ks"

text \<open>\<open>element.innerHTML = markup\<close> on the element a reference holds.\<close>

definition set_innerHTML :: "nat \<Rightarrow> html list \<Rightarrow> page \<Rightarrow> page" where
  "set_innerHTML u markup p =
     (case build_all markup (fresh p) of
        (ks, n) \<Rightarrow> (update_elem u (set_kids ks) p)\<lparr>fresh := n\<rparr>)"

text \<open>
  The class tokens of a \<open>className\<close> string: split at HTML white space, without
  repetitions.
\<close>

definition is_html_space :: "char \<Rightarrow> bool" where
  "is_html_space c = (of_char c \<in> {9, 10, 12, 13, 32 :: nat})"

fun split_tokens :: "string \<Rightarrow> string \<Rightarrow> string list" where
  "split_tokens w [] = (if w = [] then [] else [w])"
| "split_tokens w (c # cs) =
     (if is_html_space c then (if w = [] then split_tokens [] cs else w # split_tokens [] cs)
      else split_tokens (w @ [c]) cs)"

definition class_tokens :: "string \<Rightarrow> string list" where
  "class_tokens s = rev (remdups (rev (split_tokens [] s)))"

section \<open>DOM helpers of \<^verbatim>\<open>src/utils.js\<close>\<close>

definition DOM_get :: "string \<Rightarrow> page \<Rightarrow> elem option" where
  "DOM_get i p = getElementById i p"

text \<open>
  An entry of the \<open>attributes\<close> object of \<open>DOM.create\<close>: the key \<open>className\<close>, the key
  \<open>innerHTML\<close> with its markup, or another key, which goes to \<open>setAttribute\<close>.
\<close>

datatype attribute = ClassName string | InnerHTML "html list" | Attribute string string

fun setAttribute :: "string \<Rightarrow> string \<Rightarrow> elem \<Rightarrow> elem" where
  "setAttribute k v e =
     (if k = ''id'' then e\<lparr>ident := Some v\<rparr>
      else if k = ''class'' then e\<lparr>classList := class_tokens v\<rparr>
      else e\<lparr>attrs := AList.update k v (attrs e)\<rparr>)"

fun set_attribute :: "attribute \<Rightarrow> (elem \<times> node list) \<times> nat \<Rightarrow> (elem \<times> node list) \<times> nat" where
  "set_attribute (ClassName v) ((e, ks), n) = ((e\<lparr>classList := class_tokens v\<rparr>, ks), n)"
| "set_attribute (InnerHTML markup) ((e, ks), n) =
     (case build_all markup n of (ks', n') \<Rightarrow> ((e, ks'), n'))"
| "set_attribute (Attribute k v) ((e, ks), n) = ((setAttribute k v e, ks), n)"

text \<open>\<open>element.textContent = s\<close>\<close>

definition text_kids :: "string \<Rightarrow> node list" where
  "text_kids s = (if s = [] then [] else [Text s])"

text \<open>
  \<open>DOM.create(tag, attributes, content)\<close>: the new element with its children, not yet
  in the document, and the next unused identity.
\<close>

definition DOM_create ::
  "string \<Rightarrow> attribute list \<Rightarrow> string \<Rightarrow> nat \<Rightarrow> (elem \<times> node list) \<times> nat" where
  "DOM_create t attributes content n =
     (case foldl (\<lambda>st a. set_attribute a st)
             ((\<lparr>uid = n, tagName = t, ident = None, classList = [], attrs = [],
                disabled = False\<rparr>, []), Suc n) attributes of
        ((e, ks), n') \<Rightarrow> ((e, if content \<noteq> [] then text_kids content else ks), n'))"

text \<open>
  The argument of \<open>DOM.show\<close>, \<open>DOM.hide\<close> and \<open>DOM.toggle\<close>: an id, or an element
  (\<open>None\<close> for \<open>null\<close>).
\<close>

datatype target = IdString string | Element "nat option"

definition resolve :: "target \<Rightarrow> page \<Rightarrow> nat option" where
  "resolve t p = (case t of IdString i \<Rightarrow> map_option uid (DOM_get i p) | Element r \<Rightarrow> r)"

text \<open>Reading \<open>classList\<close> of \<open>null\<close> is a type error.\<close>

definition DOM_show :: "target \<Rightarrow> page \<Rightarrow> exn option \<times> page" where
  "DOM_show t p =
     (case resolve t p of
        None \<Rightarrow> (Some TypeError, p)
      | Some u \<Rightarrow> (None, update_elem u (classList_remove ''hidden'') p))"

definition DOM_hide :: "target \<Rightarrow> page \<Rightarrow> exn option \<times> page" where
  "DOM_hide t p =
     (case resolve t p of
        None \<Rightarrow> (Some TypeError, p)
      | Some u \<Rightarrow> (None, update_elem u (classList_add ''hidden'') p))"

definition DOM_toggle :: "target \<Rightarrow> page \<Rightarrow> exn option \<times> page" where
  "DOM_toggle t p =
     (case resolve t p of
        None \<Rightarrow> (Some TypeError, p)
      | Some u \<Rightarrow> (None, update_elem u (classList_toggle ''hidden'') p))"

definition Modal_show :: "string \<Rightarrow> page \<Rightarrow> exn option \<times> page" where
  "Modal_show modalId p =
     (case DOM_get modalId p of
        None \<Rightarrow> (None, p)
      | Some modal \<Rightarrow>
          (case DOM_show (Element (Some (uid modal))) p of
             (Some e, p') \<Rightarrow> (Some e, p')
           | (None, p') \<Rightarrow> (None, p'\<lparr>overflow := ''hidden''\<rparr>)))"

definition Modal_hide :: "string \<Rightarrow> page \<Rightarrow> exn option \<times> page" where
  "Modal_hide modalId p =
     (case DOM_get modalId p of
        None \<Rightarrow> (None, p)
      | Some modal \<Rightarrow>
          (case DOM_hide (Element (Some (uid modal))) p of
             (Some e, p') \<Rightarrow> (Some e, p')
           | (None, p') \<Rightarrow> (None, p'\<lparr>overflow := ''auto''\<rparr>)))"

definition Loading_show :: "string \<Rightarrow> page \<Rightarrow> exn option \<times> page" where
  "Loading_show elementId p =
     (case DOM_get elementId p of
        None \<Rightarrow> (None, p)
      | Some element \<Rightarrow>
          (None, update_elem (uid element) (set_disabled True)
                   (set_innerHTML (uid element) [HElem ''div'' None [''loading''] []] p)))"

definition Loading_hide :: "string \<Rightarrow> html list \<Rightarrow> page \<Rightarrow> exn option \<times> page" where
  "Loading_hide elementId originalContent p =
     (case DOM_get elementId p of
        None \<Rightarrow> (None, p)
      | Some element \<Rightarrow>
          (None, update_elem (uid element) (set_disabled False)
                   (set_innerHTML (uid element) originalContent p)))"

text \<open>The style sheet of the notifications.\<close>

definition notification_css :: string where
  "notification_css =
     CHR 0x0A # concat (map (\<lambda>l. l @ [CHR 0x0A])
       [''        .notification {'',
        ''          position: fixed;'',
        ''          top: 20px;'',
        ''          right: 20px;'',
        ''          padding: 1rem 1.5rem;'',
        ''          border-radius: 0.5rem;'',
        ''          color: white;'',
        ''          font-weight: 500;'',
        ''          z-index: 1001;'',
        ''          animation: slideIn 0.3s ease;'',
        ''        }'',
        ''        .notification-success { background-color: var(--success); }'',
        ''        .notification-error { background-color: var(--error); }'',
        ''        .notification-warning { background-color: var(--warning); }'',
        ''        .notification-info { background-color: var(--primary-color); }'',
        ''        @keyframes slideIn {'',
        ''          from { transform: translateX(100%); opacity: 0; }'',
        ''          to { transform: translateX(0); opacity: 1; }'',
        ''        }'']) @ ''      ''"

text \<open>
  \<open>Notification.show(message, type = "info", duration = 3000)\<close>; an argument that is
  \<open>None\<close> takes its default. The message is markup, as \<open>innerHTML\<close> reads it. The
  timer that removes the notification is left pending.
\<close>

definition inject_styles :: "page \<Rightarrow> page" where
  "inject_styles p =
     (case querySelector (ById ''notification-styles'') p of
        Some found \<Rightarrow> p
      | None \<Rightarrow>
          (case DOM_create ''style'' [Attribute ''id'' ''notification-styles''] [] (fresh p) of
             ((styles, ks), n) \<Rightarrow>
               p\<lparr>head := head p @ [Elem styles (text_kids notification_css)], fresh := n\<rparr>))"

definition Notification_show :: "html list \<Rightarrow> string option \<Rightarrow> nat option \<Rightarrow> page \<Rightarrow> page" where
  "Notification_show message type duration p =
     (let ty = (case type of None \<Rightarrow> ''info'' | Some t \<Rightarrow> t);
          dur = (case duration of None \<Rightarrow> 3000 | Some d \<Rightarrow> d)
      in case DOM_create ''div''
                [ClassName (''notification notification-'' @ ty), InnerHTML message] []
                (fresh p) of
           ((notification, ks), n) \<Rightarrow>
             (let p1 = inject_styles (p\<lparr>fresh := n\<rparr>);
                  p2 = p1\<lparr>body := body p1 @ [Elem notification ks]\<rparr>
              in p2\<lparr>timers := timers p2 @ [(uid notification, dur)]\<rparr>))"

text \<open>
  What happens to a page: a call of \<open>Notification.show\<close>, or a pending timer running
  \<open>notification.remove()\<close>. Timers may run in any order.
\<close>

datatype event = Show "html list" "string option" "nat option" | Timeout nat

fun step :: "event \<Rightarrow> page \<Rightarrow> page" where
  "step (Show message type duration) p = Notification_show message type duration p"
| "step (Timeout u) p =
     (if u \<in> fst ` set (timers p)
      then remove_elem u (p\<lparr>timers := filter (\<lambda>(k, d). k \<noteq> u) (timers p)\<rparr>)
      else p)"

definition run :: "event list \<Rightarrow> page \<Rightarrow> page" where
  "run evs p = foldl (\<lambda>q ev. step ev q) p evs"

text \<open>The number of elements of a forest, and of a page, that satisfy \<open>P\<close>.\<close>

fun count_node :: "(elem \<Rightarrow> bool) \<Rightarrow> node \<Rightarrow> nat" where
  "count_node P (Text s) = 0"
| "count_node P (Elem e ks) = (if P e then 1 else 0) + sum_list (map (count_node P) ks)"

definition count_page :: "(elem \<Rightarrow> bool) \<Rightarrow> page \<Rightarrow> nat" where
  "count_page P p =
     sum_list (map (count_node P) (head p)) + sum_list (map (count_node P) (body p))"

definition is_marker_style :: "elem \<Rightarrow> bool" where
  "is_marker_style e = (tagName e = ''style'' \<and> ident e = Some ''notification-styles'')"

text \<open>Markup that holds no \<open>style\<close> element with the marker id.\<close>

fun marker_free :: "html \<Rightarrow> bool" where
  "marker_free (HText s) = True"
| "marker_free (HElem t i cs hs) =
     (\<not> (t = ''style'' \<and> i = Some ''notification-styles'') \<and> list_all marker_free hs)"

fun event_marker_free :: "event \<Rightarrow> bool" where
  "event_marker_free (Show message type duration) = list_all marker_free message"
| "event_marker_free (Timeout u) = True"

section \<open>DOM helpers of \<^verbatim>\<open>src/js/utils.js\<close>\<close>

definition openModal :: "string \<Rightarrow> page \<Rightarrow> exn option \<times> page" where
  "openModal modalId p =
     (case getElementById modalId p of
        None \<Rightarrow> (None, p)
      | Some modal \<Rightarrow>
          (None, (update_elem (uid modal) (classList_remove ''hidden'') p)\<lparr>overflow := ''hidden''\<rparr>))"

definition closeModal :: "string \<Rightarrow> page \<Rightarrow> exn option \<times> page" where
  "closeModal modalId p =
     (case getElementById modalId p of
        None \<Rightarrow> (None, p)
      | Some modal \<Rightarrow>
          (None, (update_elem (uid modal) (classList_add ''hidden'') p)\<lparr>overflow := ''auto''\<rparr>))"

text \<open>
  Both elements are looked up first; reading \<open>classList\<close> of \<open>null\<close> is a type error, and
  the second one is raised after the sidebar has been toggled.
\<close>

definition toggleSidebar :: "page \<Rightarrow> exn option \<times> page" where
  "toggleSidebar p =
     (let sidebar = querySelector (ByClass ''sidebar'') p;
          mainContent = querySelector (ByClass ''main-content'') p
      in case sidebar of
           None \<Rightarrow> (Some TypeError, p)
         | Some sb \<Rightarrow>
             (let p1 = update_elem (uid sb) (classList_toggle ''open'') p
              in case mainContent of
                   None \<Rightarrow> (Some TypeError, p1)
                 | Some mc \<Rightarrow> (None, update_elem (uid mc) (classList_toggle ''expanded'') p1)))"

text \<open>Running one helper after another; an exception stops the sequence.\<close>

definition and_then ::
  "(page \<Rightarrow> exn option \<times> page) \<Rightarrow> (page \<Rightarrow> exn option \<times> page) \<Rightarrow> page \<Rightarrow> exn option \<times> page" where
  "and_then f g p = (case f p of (Some e, p') \<Rightarrow> (Some e, p') | (None, p') \<Rightarrow> g p')"

section \<open>Example inputs\<close>

text \<open>
  The examples of form validation put no string where a number is wanted, so that any
  conversion of strings to numbers gives them the same outcome; they are run with the
  conversion below.
\<close>

definition no_numeral :: string_to_number where
  "no_numeral s = NaN"

text \<open>
  A transport that resolves with one response whatever the request, and a serialiser for
  the examples of the network client, which send no body, so that none is serialised.
\<close>

definition answer :: "response \<Rightarrow> transport" where
  "answer resp url cfg = Inr resp"

definition no_text :: "json \<Rightarrow> string" where
  "no_text j = []"


subsection \<open>Example pages\<close>

text \<open>
  A page without content; a page whose body holds one hidden modal with the id \<open>m\<close>,
  for a given value of the overflow style; and a page with a sidebar and no main content.
\<close>

definition modal_page :: "string \<Rightarrow> page" where
  "modal_page v =
     \<lparr>head = [],
      body = [Elem \<lparr>uid = 0, tagName = ''div'', ident = Some ''m'',
                    classList = [''modal-overlay'', ''hidden''], attrs = [], disabled = False\<rparr> []],
      overflow = v, fresh = 1, timers = []\<rparr>"

definition empty_page :: page where
  "empty_page = \<lparr>head = [], body = [], overflow = '''', fresh = 0, timers = []\<rparr>"

definition sidebar_page :: page where
  "sidebar_page =
     \<lparr>head = [],
      body = [Elem \<lparr>uid = 0, tagName = ''nav'', ident = None, classList = [''sidebar''],
                    attrs = [], disabled = False\<rparr> []],
      overflow = '''', fresh = 1, timers = []\<rparr>"


section \<open>The matcher decides the language\<close>

lemma nullable_lang: "nullable r \<longleftrightarrow> [] \<in> lang r"
  by (induction r) (auto intro: star.intros)

lemma star_cons:
  "c # w \<in> star A \<longleftrightarrow> (\<exists>u v. w = u @ v \<and> c # u \<in> A \<and> v \<in> star A)"
proof
  assume "c # w \<in> star A"
  then show "\<exists>u v. w = u @ v \<and> c # u \<in> A \<and> v \<in> star A"
  proof (induction "c # w" arbitrary: w rule: star.induct)
    case (star_step u v)
    then show ?case by (cases u) auto
  qed
next
  assume "\<exists>u v. w = u @ v \<and> c # u \<in> A \<and> v \<in> star A"
  then obtain u v where "w = u @ v" "c # u \<in> A" "v \<in> star A" by blast
  then have "(c # u) @ v \<in> star A" by (intro star.star_step)
  with \<open>w = u @ v\<close> show "c # w \<in> star A" by simp
qed

lemma cons_in_Seq:
  "c # w \<in> lang (Seq r s) \<longleftrightarrow>
     (\<exists>u v. w = u @ v \<and> c # u \<in> lang r \<and> v \<in> lang s) \<or> ([] \<in> lang r \<and> c # w \<in> lang s)"
  by (auto simp: Cons_eq_append_conv)

lemma in_Seq: "w \<in> lang (Seq r s) \<longleftrightarrow> (\<exists>u v. w = u @ v \<and> u \<in> lang r \<and> v \<in> lang s)"
  by auto

lemma deriv_lang: "w \<in> lang (deriv c r) \<longleftrightarrow> c # w \<in> lang r"
proof (induction r arbitrary: w)
  case (Seq r s)
  then show ?case
    unfolding cons_in_Seq by (simp add: nullable_lang in_Seq del: lang.simps(6))
next
  case (Star r)
  then show ?case by (auto simp: star_cons)
qed auto

lemma test_lang: "test r s \<longleftrightarrow> s \<in> lang r"
  unfolding test_def
  by (induction s arbitrary: r) (auto simp: nullable_lang deriv_lang)

lemma in_Seq_OneOf:
  "w \<in> lang (Seq (OneOf cs) r) \<longleftrightarrow> (\<exists>c v. w = c # v \<and> list_ex (in_item c) cs \<and> v \<in> lang r)"
proof
  assume "w \<in> lang (Seq (OneOf cs) r)"
  then show "\<exists>c v. w = c # v \<and> list_ex (in_item c) cs \<and> v \<in> lang r" by auto
next
  assume "\<exists>c v. w = c # v \<and> list_ex (in_item c) cs \<and> v \<in> lang r"
  then obtain c v where "w = [c] @ v" "list_ex (in_item c) cs" "v \<in> lang r" by auto
  then show "w \<in> lang (Seq (OneOf cs) r)" unfolding in_Seq by (intro exI [of _ "[c]"] exI [of _ v]) simp
qed

lemma in_Seq_Opt: "w \<in> lang (Seq (Opt a) r) \<longleftrightarrow> w \<in> lang r \<or> w \<in> lang (Seq a r)"
proof -
  have "w \<in> lang r \<Longrightarrow> \<exists>u v. w = u @ v \<and> (u = [] \<or> u \<in> lang a) \<and> v \<in> lang r"
    by (intro exI [of _ "[]"] exI [of _ w]) simp
  then show ?thesis by (auto simp: Opt_def)
qed

lemma lang_UpTo:
  "w \<in> lang (UpTo n (OneOf cs)) \<longleftrightarrow> length w \<le> n \<and> (\<forall>c\<in>set w. list_ex (in_item c) cs)"
proof (induction n arbitrary: w)
  case 0
  then show ?case by auto
next
  case (Suc n)
  show ?case
    unfolding UpTo.simps lang.simps(5) Un_iff in_Seq_OneOf
    using Suc by (cases w) auto
qed

lemma of_char_zero: "(of_char c = (48::nat)) \<longleftrightarrow> c = CHR ''0''"
proof -
  have "(of_char c :: nat) = of_char CHR ''0'' \<longleftrightarrow> c = CHR ''0''"
    by (simp only: of_char_eq_iff)
  then show ?thesis by simp
qed

lemma nonzero_digit: "in_item c (FromTo CHR ''1'' CHR ''9'') \<longleftrightarrow> is_digit c \<and> c \<noteq> CHR ''0''"
  using of_char_zero [of c] by (auto simp: is_digit_def)

lemma test_phoneRegex: "test phoneRegex s \<longleftrightarrow> phone_shape s"
proof -
  have plus: "\<not> is_digit CHR ''+''" by (simp add: is_digit_def)
  let ?body = "Seq (OneOf [FromTo CHR ''1'' CHR ''9'']) (UpTo 15 (OneOf [Digit]))"
  have body: "w \<in> lang ?body \<longleftrightarrow>
      w \<noteq> [] \<and> is_digit (hd w) \<and> hd w \<noteq> CHR ''0'' \<and> list_all is_digit (tl w) \<and> length (tl w) \<le> 15"
    for w
    unfolding in_Seq_OneOf lang_UpTo
    by (cases w) (auto simp: nonzero_digit list_all_iff simp del: in_item.simps(2))
  have "test phoneRegex s \<longleftrightarrow> s \<in> lang ?body \<or> (\<exists>v. s = CHR ''+'' # v \<and> v \<in> lang ?body)"
    unfolding test_lang phoneRegex_def in_Seq_Opt
    by (subst (2) in_Seq_OneOf) simp
  also have "\<dots> \<longleftrightarrow> phone_shape s"
    unfolding body phone_shape_def using plus by (cases s) (auto simp: Let_def)
  finally show ?thesis .
qed


section \<open>Form validation: the loops and the fold\<close>

subsection \<open>The short-circuiting fold\<close>

lemma first_failure_append:
  "\<forall>q\<in>set pre. ap q = Inr None \<Longrightarrow> first_failure ap (pre @ rest) = first_failure ap rest"
  by (induction pre) auto

lemma first_failure_split:
  "first_failure ap rs = Inr (Some m) \<Longrightarrow>
     \<exists>pre r post. rs = pre @ r # post \<and> (\<forall>q\<in>set pre. ap q = Inr None) \<and> ap r = Inr (Some m)"
proof (induction rs)
  case Nil
  then show ?case by simp
next
  case (Cons a rs)
  show ?case
  proof (cases "ap a")
    case (Inl e)
    with Cons.prems show ?thesis by simp
  next
    case (Inr x)
    show ?thesis
    proof (cases x)
      case None
      with Inr Cons.prems have "first_failure ap rs = Inr (Some m)" by simp
      then obtain pre r post where
        "rs = pre @ r # post" "\<forall>q\<in>set pre. ap q = Inr None" "ap r = Inr (Some m)"
        using Cons.IH by blast
      with None Inr have
        "a # rs = (a # pre) @ r # post \<and> (\<forall>q\<in>set (a # pre). ap q = Inr None) \<and> ap r = Inr (Some m)"
        by simp
      then show ?thesis by blast
    next
      case (Some m')
      with Inr Cons.prems have
        "a # rs = [] @ a # rs \<and> (\<forall>q\<in>set []. ap q = Inr None) \<and> ap a = Inr (Some m)"
        by simp
      then show ?thesis by blast
    qed
  qed
qed

lemma first_failure_Some_iff:
  "first_failure ap rs = Inr (Some m) \<longleftrightarrow>
     (\<exists>pre r post. rs = pre @ r # post \<and> (\<forall>q\<in>set pre. ap q = Inr None) \<and> ap r = Inr (Some m))"
  using first_failure_split [of ap rs m] by (auto simp: first_failure_append)

lemma first_failure_None_iff:
  "first_failure ap rs = Inr None \<longleftrightarrow> (\<forall>q\<in>set rs. ap q = Inr None)"
  by (induction rs) (auto split: sum.splits option.splits)

lemma first_failure_member:
  assumes "first_failure ap rs = Inr x" and "r \<in> set rs" and "ap r = Inr (Some m)"
  shows "\<exists>m'. x = Some m'"
proof (cases x)
  case None
  with assms(1) have "\<forall>q\<in>set rs. ap q = Inr None" by (simp add: first_failure_None_iff)
  with assms(2,3) show ?thesis by auto
next
  case (Some m')
  then show ?thesis by simp
qed

lemma map_of_store:
  "map_of (store k v ob) = (if k = ''__proto__'' then map_of ob else (map_of ob)(k \<mapsto> v))"
  by (simp add: store_def update_conv')

lemma keys_store: "fst ` set (store k v ob) \<subseteq> insert k (fst ` set ob)"
  by (simp add: store_def dom_update subset_insertI)

lemma proto_store:
  "''__proto__'' \<in> fst ` set (store k v ob) \<longleftrightarrow> ''__proto__'' \<in> fst ` set ob"
  by (auto simp: store_def dom_update)

lemma record_failures_append:
  "record_failures ap V (R1 @ R2) errs =
     (case record_failures ap V R1 errs of
        Inl e \<Rightarrow> Inl e
      | Inr errs1 \<Rightarrow> record_failures ap V R2 errs1)"
  by (induction R1 arbitrary: errs) (auto split: sum.splits option.splits)

lemma record_failures_map_of:
  "distinct (map fst R) \<Longrightarrow> record_failures ap V R errs = Inr errs' \<Longrightarrow>
   map_of errs' f =
     (case map_of R f of
        None \<Rightarrow> map_of errs f
      | Some rs \<Rightarrow>
          (case first_failure (ap f (lookup V f)) rs of
             Inr (Some m) \<Rightarrow> if f = ''__proto__'' then map_of errs f else Some m
           | _ \<Rightarrow> map_of errs f))"
proof (induction R arbitrary: errs)
  case Nil
  then show ?case by simp
next
  case (Cons a R)
  obtain g rs where a: "a = (g, rs)" by (cases a)
  define errs1 where
    "errs1 = (case first_failure (ap g (lookup V g)) rs of
                Inr (Some m) \<Rightarrow> store g m errs | _ \<Rightarrow> errs)"
  from Cons.prems a have e2: "record_failures ap V R errs1 = Inr errs'"
    by (auto simp: errs1_def split: sum.splits option.splits)
  from Cons.prems a have d: "distinct (map fst R)" and g: "g \<notin> fst ` set R" by auto
  note ih = Cons.IH [OF d e2]
  show ?case
  proof (cases "f = g")
    case True
    with g have "map_of R f = None" by (simp add: map_of_eq_None_iff)
    with ih True a show ?thesis
      by (auto simp: errs1_def map_of_store split: sum.splits option.splits)
  next
    case False
    then have "map_of errs1 f = map_of errs f"
      by (auto simp: errs1_def map_of_store split: sum.splits option.splits)
    with ih False a show ?thesis by (auto split: option.splits sum.splits)
  qed
qed

lemma record_failures_no_throw:
  "record_failures ap V R errs = Inr errs' \<Longrightarrow> (f, rs) \<in> set R \<Longrightarrow>
   \<exists>x. first_failure (ap f (lookup V f)) rs = Inr x"
  by (induction R arbitrary: errs) (auto split: sum.splits option.splits)

lemma record_failures_keys:
  "record_failures ap V R errs = Inr errs' \<Longrightarrow> fst ` set errs' \<subseteq> fst ` set errs \<union> fst ` set R"
proof (induction R arbitrary: errs)
  case Nil
  then show ?case by simp
next
  case (Cons a R)
  obtain g rs where a: "a = (g, rs)" by (cases a)
  define errs1 where
    "errs1 = (case first_failure (ap g (lookup V g)) rs of
                Inr (Some m) \<Rightarrow> store g m errs | _ \<Rightarrow> errs)"
  from Cons.prems a have e2: "record_failures ap V R errs1 = Inr errs'"
    by (auto simp: errs1_def split: sum.splits option.splits)
  have "fst ` set errs1 \<subseteq> insert g (fst ` set errs)"
    using keys_store [of g _ errs]
    by (auto simp: errs1_def split: sum.splits option.splits)
  with Cons.IH [OF e2] a show ?case by auto
qed

lemma record_failures_no_proto:
  "record_failures ap V R errs = Inr errs' \<Longrightarrow> ''__proto__'' \<notin> fst ` set errs \<Longrightarrow>
   ''__proto__'' \<notin> fst ` set errs'"
proof (induction R arbitrary: errs)
  case Nil
  then show ?case by simp
next
  case (Cons a R)
  obtain g rs where a: "a = (g, rs)" by (cases a)
  define errs1 where
    "errs1 = (case first_failure (ap g (lookup V g)) rs of
                Inr (Some m) \<Rightarrow> store g m errs | _ \<Rightarrow> errs)"
  from Cons.prems a have e2: "record_failures ap V R errs1 = Inr errs'"
    by (auto simp: errs1_def split: sum.splits option.splits)
  from Cons.prems(2) have "''__proto__'' \<notin> fst ` set errs1"
    by (simp add: errs1_def proto_store split: sum.splits option.splits)
  with Cons.IH [OF e2] show ?case .
qed

lemma record_failures_agree:
  "\<forall>f\<in>fst ` set R. lookup V f = lookup V' f \<Longrightarrow>
   record_failures ap V R errs = record_failures ap V' R errs"
  by (induction R arbitrary: errs) (auto split: sum.splits option.splits)

text \<open>The result for a field with distinct keys, in terms of the rules themselves.\<close>

lemma record_failures_message:
  assumes "distinct (map fst R)" and "record_failures ap V R [] = Inr errs"
    and "f \<noteq> ''__proto__''"
  shows "map_of errs f = Some m \<longleftrightarrow>
     (\<exists>pre r post. map_of R f = Some (pre @ r # post) \<and>
        (\<forall>q\<in>set pre. ap f (lookup V f) q = Inr None) \<and> ap f (lookup V f) r = Inr (Some m))"
proof -
  have "map_of errs f = Some m \<longleftrightarrow>
      (\<exists>rs. map_of R f = Some rs \<and> first_failure (ap f (lookup V f)) rs = Inr (Some m))"
    using record_failures_map_of [OF assms(1,2), of f] assms(3)
    by (auto split: option.splits sum.splits)
  then show ?thesis
    unfolding first_failure_Some_iff by blast
qed

lemma record_failures_key:
  assumes "distinct (map fst R)" and "record_failures ap V R [] = Inr errs"
    and "f \<noteq> ''__proto__''"
  shows "f \<in> fst ` set errs \<longleftrightarrow>
     (\<exists>rs r m. map_of R f = Some rs \<and> r \<in> set rs \<and> ap f (lookup V f) r = Inr (Some m))"
proof
  assume "f \<in> fst ` set errs"
  then obtain m where "map_of errs f = Some m"
    by (metis domD dom_map_of_conv_image_fst)
  then obtain pre r post where
    "map_of R f = Some (pre @ r # post)" "ap f (lookup V f) r = Inr (Some m)"
    using record_failures_message [OF assms] by blast
  then have "map_of R f = Some (pre @ r # post) \<and> r \<in> set (pre @ r # post)
      \<and> ap f (lookup V f) r = Inr (Some m)" by simp
  then show "\<exists>rs r m. map_of R f = Some rs \<and> r \<in> set rs \<and> ap f (lookup V f) r = Inr (Some m)"
    by blast
next
  assume "\<exists>rs r m. map_of R f = Some rs \<and> r \<in> set rs \<and> ap f (lookup V f) r = Inr (Some m)"
  then obtain rs r m where
    rs: "map_of R f = Some rs" and r: "r \<in> set rs" "ap f (lookup V f) r = Inr (Some m)"
    by blast
  from rs have "(f, rs) \<in> set R" by (rule map_of_SomeD)
  then obtain x where x: "first_failure (ap f (lookup V f)) rs = Inr x"
    using record_failures_no_throw [OF assms(2)] by blast
  then obtain m' where "x = Some m'" using first_failure_member [OF x r] by blast
  with x rs have "map_of errs f = Some m'"
    using record_failures_map_of [OF assms(1,2), of f] assms(3) by simp
  then show "f \<in> fst ` set errs"
    by (metis domI dom_map_of_conv_image_fst)
qed

lemma record_failures_suffix:
  assumes "\<forall>q\<in>set pre. ap g (lookup V g) q = Inr None"
    and "ap g (lookup V g) r = Inr (Some m)"
  shows "record_failures ap V (R1 @ (g, pre @ r # post) # R2) errs =
         record_failures ap V (R1 @ (g, pre @ r # post') # R2) errs"
proof -
  have "record_failures ap V ((g, pre @ r # post) # R2) e =
        record_failures ap V ((g, pre @ r # post') # R2) e" for e
    using assms by (simp add: first_failure_append)
  then show ?thesis
    unfolding record_failures_append
    by (cases "record_failures ap V R1 errs") (simp_all del: record_failures.simps)
qed

subsection \<open>The loops are this fold\<close>

lemma check_rules_eq:
  "check_rules ton f v rs errs =
     (case first_failure (apply_rule ton f v) rs of
        Inl e \<Rightarrow> Inl e
      | Inr None \<Rightarrow> Inr errs
      | Inr (Some m) \<Rightarrow> Inr (store f m errs))"
  by (induction rs) (auto split: sum.splits option.splits)

lemma check_fields_eq: "check_fields ton V R errs = record_failures (apply_rule ton) V R errs"
  by (induction R arbitrary: errs) (auto simp: check_rules_eq split: sum.splits option.splits)

lemma check_rules_js_eq:
  "check_rules_js f v rs errs =
     (case first_failure (apply_rule_js v) rs of
        Inl e \<Rightarrow> Inl e
      | Inr None \<Rightarrow> Inr errs
      | Inr (Some m) \<Rightarrow> Inr (store f m errs))"
  by (induction rs) (auto split: sum.splits option.splits)

lemma check_fields_js_eq:
  "check_fields_js V R errs = record_failures (\<lambda>f. apply_rule_js) V R errs"
  by (induction R arbitrary: errs) (auto simp: check_rules_js_eq split: sum.splits option.splits)

lemma validateForm_Inr:
  "validateForm ton V R = Inr res \<longleftrightarrow>
     record_failures (apply_rule ton) V R [] = Inr (errors res) \<and> isValid res = (errors res = [])
     \<and> validation.more res = ()"
  by (cases res) (auto simp: validateForm_def check_fields_eq split: sum.splits)

lemma validateForm_js_Inr:
  "validateForm_js V R = Inr errs \<longleftrightarrow> record_failures (\<lambda>f. apply_rule_js) V R [] = Inr errs"
  by (simp add: validateForm_js_def check_fields_js_eq)

lemma validateForm_suffix:
  assumes "\<forall>q\<in>set pre. apply_rule ton g (lookup V g) q = Inr None"
    and "apply_rule ton g (lookup V g) r = Inr (Some m)"
  shows "validateForm ton V (R1 @ (g, pre @ r # post) # R2) =
         validateForm ton V (R1 @ (g, pre @ r # post') # R2)"
  unfolding validateForm_def check_fields_eq
  using record_failures_suffix [of pre "apply_rule ton" g V r m R1 post R2 "[]" post', OF assms]
  by (simp only:)

lemma validateForm_js_suffix:
  assumes "\<forall>q\<in>set pre. apply_rule_js (lookup V g) q = Inr None"
    and "apply_rule_js (lookup V g) r = Inr (Some m)"
  shows "validateForm_js V (R1 @ (g, pre @ r # post) # R2) =
         validateForm_js V (R1 @ (g, pre @ r # post') # R2)"
  unfolding validateForm_js_def check_fields_js_eq
  using record_failures_suffix [of pre "\<lambda>f. apply_rule_js" g V r m R1 post R2 "[]" post'] assms
  by (simp only:)


section \<open>Claims about form validation\<close>

text \<open>
  C1, as the specification states it, fails for the field name \<open>__proto__\<close>, which a
  rule specification holds as an own key when it is read from JSON, as
  \<open>JSON.parse('{"__proto__": ["email"]}')\<close>, or written with a computed key, as
  \<open>{ ["__proto__"]: [validators.email] }\<close>. With an empty value bag the value read at the field is \<open>Object.prototype\<close>, whose text
  \<open>[object Object]\<close> is no email address: the rule of the field fails, and the returned
  mapping has no key for it, the assignment \<open>errors["__proto__"] = message\<close> being taken
  by the accessor of \<open>Object.prototype\<close>. This is so in both files.
\<close>

theorem validateForm_first_failing_rule_counterexample:
  "lookup [] ''__proto__'' = ObjectPrototype \<and>
   apply_rule no_numeral ''__proto__'' ObjectPrototype (RVal (JStr ''email''))
     = Inr (Some (JStr ''__proto__ is email'')) \<and>
   validateForm no_numeral [] [(''__proto__'', [RVal (JStr ''email'')])]
     = Inr \<lparr>isValid = True, errors = []\<rparr> \<and>
   apply_rule_js ObjectPrototype (RFun email_js)
     = Inr (Some (JStr ''Please enter a valid email address'')) \<and>
   validateForm_js [] [(''__proto__'', [RFun email_js])] = Inr []"
proof -
  have "lookup [] ''__proto__'' = ObjectPrototype"
    by (simp add: lookup_def object_prototype_def)
  moreover have "apply_rule no_numeral ''__proto__'' ObjectPrototype (RVal (JStr ''email''))
     = Inr (Some (JStr ''__proto__ is email''))"
    by code_simp
  moreover have "validateForm no_numeral [] [(''__proto__'', [RVal (JStr ''email'')])]
     = Inr \<lparr>isValid = True, errors = []\<rparr>"
    by code_simp
  moreover have "apply_rule_js ObjectPrototype (RFun email_js)
     = Inr (Some (JStr ''Please enter a valid email address''))"
    by code_simp
  moreover have "validateForm_js [] [(''__proto__'', [RFun email_js])] = Inr []"
    by code_simp
  ultimately show ?thesis by (simp only: simp_thms)
qed

text \<open>
  C1, amended. When \<open>validateForm\<close> returns, then for every field other than
  \<open>__proto__\<close> its mapping holds a message for the field exactly when some rule of the
  field fails on the field's value; the message is the one of the first rule that fails,
  all rules before it having passed; the rules after it are not evaluated, so that
  exchanging them for any others, even ones that would throw, leaves the result as it
  is; a field whose rules all pass has no key; the mapping never has the key
  \<open>__proto__\<close>; and \<open>isValid\<close> says that the mapping is empty. The value of a field is
  what \<open>formData[field]\<close> yields, an inherited member included. This holds for
  \<open>validateForm\<close> of both files.
\<close>

theorem validateForm_first_failing_rule:
  "(distinct (map fst R) \<and> validateForm ton V R = Inr res \<longrightarrow>
      (f \<noteq> ''__proto__'' \<longrightarrow>
         (map_of (errors res) f = Some m \<longleftrightarrow>
            (\<exists>pre r post. map_of R f = Some (pre @ r # post) \<and>
               (\<forall>q\<in>set pre. apply_rule ton f (lookup V f) q = Inr None) \<and>
               apply_rule ton f (lookup V f) r = Inr (Some m))) \<and>
         (f \<in> fst ` set (errors res) \<longleftrightarrow>
            (\<exists>rs r k. map_of R f = Some rs \<and> r \<in> set rs \<and>
               apply_rule ton f (lookup V f) r = Inr (Some k)))) \<and>
      ''__proto__'' \<notin> fst ` set (errors res) \<and>
      (isValid res \<longleftrightarrow> errors res = [])) \<and>
   ((\<forall>q\<in>set before. apply_rule ton g (lookup V g) q = Inr None) \<and>
    apply_rule ton g (lookup V g) failing = Inr (Some k') \<longrightarrow>
      validateForm ton V (R1 @ (g, before @ failing # later) # R2) =
      validateForm ton V (R1 @ (g, before @ failing # later') # R2)) \<and>
   (distinct (map fst R') \<and> validateForm_js V' R' = Inr errs \<longrightarrow>
      (f' \<noteq> ''__proto__'' \<longrightarrow>
         (map_of errs f' = Some n \<longleftrightarrow>
            (\<exists>pre r post. map_of R' f' = Some (pre @ r # post) \<and>
               (\<forall>q\<in>set pre. apply_rule_js (lookup V' f') q = Inr None) \<and>
               apply_rule_js (lookup V' f') r = Inr (Some n))) \<and>
         (f' \<in> fst ` set errs \<longleftrightarrow>
            (\<exists>rs r k. map_of R' f' = Some rs \<and> r \<in> set rs \<and>
               apply_rule_js (lookup V' f') r = Inr (Some k)))) \<and>
      ''__proto__'' \<notin> fst ` set errs) \<and>
   ((\<forall>q\<in>set before'. apply_rule_js (lookup V' g') q = Inr None) \<and>
    apply_rule_js (lookup V' g') failing' = Inr (Some k'') \<longrightarrow>
      validateForm_js V' (S1 @ (g', before' @ failing' # rest) # S2) =
      validateForm_js V' (S1 @ (g', before' @ failing' # rest') # S2))"
proof (intro conjI impI)
  assume a: "distinct (map fst R) \<and> validateForm ton V R = Inr res"
  then have d: "distinct (map fst R)"
    and r: "record_failures (apply_rule ton) V R [] = Inr (errors res)"
    by (simp_all add: validateForm_Inr)
  from record_failures_no_proto [OF r] show "''__proto__'' \<notin> fst ` set (errors res)" by simp
  from a show "isValid res \<longleftrightarrow> errors res = []"
    by (simp add: validateForm_Inr)
  assume f: "f \<noteq> ''__proto__''"
  show "map_of (errors res) f = Some m \<longleftrightarrow>
         (\<exists>pre r post. map_of R f = Some (pre @ r # post) \<and>
            (\<forall>q\<in>set pre. apply_rule ton f (lookup V f) q = Inr None) \<and>
            apply_rule ton f (lookup V f) r = Inr (Some m))"
    by (rule record_failures_message [OF d r f])
  show "f \<in> fst ` set (errors res) \<longleftrightarrow>
         (\<exists>rs r k. map_of R f = Some rs \<and> r \<in> set rs \<and>
            apply_rule ton f (lookup V f) r = Inr (Some k))"
    by (rule record_failures_key [OF d r f])
next
  assume "(\<forall>q\<in>set before. apply_rule ton g (lookup V g) q = Inr None) \<and>
    apply_rule ton g (lookup V g) failing = Inr (Some k')"
  then show "validateForm ton V (R1 @ (g, before @ failing # later) # R2) =
      validateForm ton V (R1 @ (g, before @ failing # later') # R2)"
    by (intro validateForm_suffix) simp_all
next
  assume a: "distinct (map fst R') \<and> validateForm_js V' R' = Inr errs"
  then have d: "distinct (map fst R')"
    and r: "record_failures (\<lambda>f. apply_rule_js) V' R' [] = Inr errs"
    by (simp_all add: validateForm_js_Inr)
  from record_failures_no_proto [OF r] show "''__proto__'' \<notin> fst ` set errs" by simp
  assume f: "f' \<noteq> ''__proto__''"
  show "map_of errs f' = Some n \<longleftrightarrow>
         (\<exists>pre r post. map_of R' f' = Some (pre @ r # post) \<and>
            (\<forall>q\<in>set pre. apply_rule_js (lookup V' f') q = Inr None) \<and>
            apply_rule_js (lookup V' f') r = Inr (Some n))"
    by (rule record_failures_message [OF d r f])
  show "f' \<in> fst ` set errs \<longleftrightarrow>
         (\<exists>rs r k. map_of R' f' = Some rs \<and> r \<in> set rs \<and>
            apply_rule_js (lookup V' f') r = Inr (Some k))"
    by (rule record_failures_key [OF d r f])
next
  assume "(\<forall>q\<in>set before'. apply_rule_js (lookup V' g') q = Inr None) \<and>
    apply_rule_js (lookup V' g') failing' = Inr (Some k'')"
  then show "validateForm_js V' (S1 @ (g', before' @ failing' # rest) # S2) =
      validateForm_js V' (S1 @ (g', before' @ failing' # rest') # S2)"
    by (intro validateForm_js_suffix) simp_all
qed

theorem validateForm_first_failing_rule_witness:
  "distinct (map fst
      [(''name'', [RVal (JStr ''required''),
                   RObj [(''validator'', JStr ''minLength''), (''min'', JNum 3)]]),
       (''tel'', [RVal (JStr ''phone'')])]) \<and>
   validateForm no_numeral [(''name'', JStr ''''), (''tel'', JStr ''12'')]
      [(''name'', [RVal (JStr ''required''),
                   RObj [(''validator'', JStr ''minLength''), (''min'', JNum 3)]]),
       (''tel'', [RVal (JStr ''phone'')])]
     = Inr \<lparr>isValid = False, errors = [(''name'', JStr ''name is required'')]\<rparr> \<and>
   ''name'' \<noteq> ''__proto__'' \<and>
   (\<exists>pre r post.
      map_of [(''name'', [RVal (JStr ''required''),
                          RObj [(''validator'', JStr ''minLength''), (''min'', JNum 3)]]),
              (''tel'', [RVal (JStr ''phone'')])] ''name'' = Some (pre @ r # post) \<and>
      (\<forall>q\<in>set pre. apply_rule no_numeral ''name'' (Prim (JStr '''')) q = Inr None) \<and>
      apply_rule no_numeral ''name'' (Prim (JStr '''')) r
        = Inr (Some (JStr ''name is required''))) \<and>
   apply_rule no_numeral ''name'' (Prim (JStr '''')) (RVal (JStr ''required''))
     = Inr (Some (JStr ''name is required'')) \<and>
   validateForm no_numeral [(''name'', JStr ''''), (''tel'', JStr ''12'')]
      [(''name'', [RVal (JStr ''required''), RVal (JStr ''nosuch'')]),
       (''tel'', [RVal (JStr ''phone'')])]
     = Inr \<lparr>isValid = False, errors = [(''name'', JStr ''name is required'')]\<rparr> \<and>
   distinct (map fst [(''name'', [RFun required_js, RFun (minLength_js no_numeral (JNum 3))])]) \<and>
   validateForm_js [(''name'', JStr '''')]
      [(''name'', [RFun required_js, RFun (minLength_js no_numeral (JNum 3))])]
     = Inr [(''name'', JStr ''This field is required'')] \<and>
   (\<exists>pre r post.
      map_of [(''name'', [RFun required_js, RFun (minLength_js no_numeral (JNum 3))])] ''name''
        = Some (pre @ r # post) \<and>
      (\<forall>q\<in>set pre. apply_rule_js (Prim (JStr '''')) q = Inr None) \<and>
      apply_rule_js (Prim (JStr '''')) r = Inr (Some (JStr ''This field is required''))) \<and>
   apply_rule_js (Prim (JStr '''')) (RFun required_js)
     = Inr (Some (JStr ''This field is required'')) \<and>
   validateForm_js [(''name'', JStr '''')] [(''name'', [RFun required_js, RVal JNull])]
     = Inr [(''name'', JStr ''This field is required'')]"
proof -
  let ?V = "[(''name'', JStr ''''), (''tel'', JStr ''12'')]"
  let ?obj = "RObj [(''validator'', JStr ''minLength''), (''min'', JNum 3)]"
  let ?tel = "(''tel'', [RVal (JStr ''phone'')])"
  let ?R = "[(''name'', [RVal (JStr ''required''), ?obj]), ?tel]"
  let ?res = "\<lparr>isValid = False, errors = [(''name'', JStr ''name is required'')]\<rparr>"
  let ?V' = "[(''name'', JStr '''')]"
  let ?R' = "[(''name'', [RFun required_js, RFun (minLength_js no_numeral (JNum 3))])]"
  let ?errs = "[(''name'', JStr ''This field is required'')]"
  note inst = validateForm_first_failing_rule
    [where R = ?R and V = ?V and res = ?res and f = "''name''" and ton = no_numeral
       and m = "JStr ''name is required''"
       and g = "''name''" and before = "[]" and failing = "RVal (JStr ''required'')"
       and k' = "JStr ''name is required''"
       and later = "[?obj]" and later' = "[RVal (JStr ''nosuch'')]"
       and ?R1.0 = "[]" and ?R2.0 = "[?tel]"
       and R' = ?R' and V' = ?V' and errs = ?errs and f' = "''name''"
       and n = "JStr ''This field is required''"
       and g' = "''name''" and before' = "[]" and failing' = "RFun required_js"
       and k'' = "JStr ''This field is required''"
       and rest = "[RFun (minLength_js no_numeral (JNum 3))]" and rest' = "[RVal JNull]"
       and ?S1.0 = "[]" and ?S2.0 = "[]"]
  have d: "distinct (map fst ?R)" "distinct (map fst ?R')" by simp_all
  have req: "apply_rule no_numeral ''name'' (Prim (JStr '''')) (RVal (JStr ''required''))
      = Inr (Some (JStr ''name is required''))"
    by (simp add: validators_def required_def)
  have v: "validateForm no_numeral ?V ?R = Inr ?res"
    by code_simp
  have req': "apply_rule_js (Prim (JStr '''')) (RFun required_js)
      = Inr (Some (JStr ''This field is required''))"
    by (simp add: required_js_def)
  have v': "validateForm_js ?V' ?R' = Inr ?errs"
    by code_simp
  from inst d req v req' v' show ?thesis
    by (simp add: lookup_def)
qed

text \<open>
  C9. The result of \<open>validateForm\<close> depends only on the values of the fields that the
  rules name: two value bags that read the same at each of these fields give the same
  result (the error mapping, the \<open>isValid\<close> flag, or the exception), and every key of
  the returned mapping is a key of the rules. This holds for \<open>validateForm\<close> of both
  files.
\<close>

theorem validateForm_reads_named_fields_only:
  "((\<forall>f\<in>fst ` set R. lookup V f = lookup W f) \<longrightarrow> validateForm ton V R = validateForm ton W R) \<and>
   (validateForm ton V R = Inr res \<longrightarrow> fst ` set (errors res) \<subseteq> fst ` set R) \<and>
   ((\<forall>f\<in>fst ` set R'. lookup V' f = lookup W' f) \<longrightarrow>
      validateForm_js V' R' = validateForm_js W' R') \<and>
   (validateForm_js V' R' = Inr errs \<longrightarrow> fst ` set errs \<subseteq> fst ` set R')"
proof (intro conjI impI)
  assume "\<forall>f\<in>fst ` set R. lookup V f = lookup W f"
  then show "validateForm ton V R = validateForm ton W R"
    unfolding validateForm_def check_fields_eq
    by (simp add: record_failures_agree [of R V W])
next
  assume "validateForm ton V R = Inr res"
  then have "record_failures (apply_rule ton) V R [] = Inr (errors res)"
    by (simp add: validateForm_Inr)
  from record_failures_keys [OF this] show "fst ` set (errors res) \<subseteq> fst ` set R" by simp
next
  assume "\<forall>f\<in>fst ` set R'. lookup V' f = lookup W' f"
  then show "validateForm_js V' R' = validateForm_js W' R'"
    unfolding validateForm_js_def check_fields_js_eq
    by (simp add: record_failures_agree [of R' V' W'])
next
  assume "validateForm_js V' R' = Inr errs"
  then have "record_failures (\<lambda>f. apply_rule_js) V' R' [] = Inr errs"
    by (simp add: validateForm_js_Inr)
  from record_failures_keys [OF this] show "fst ` set errs \<subseteq> fst ` set R'" by simp
qed

theorem validateForm_reads_named_fields_only_witness:
  "lookup [(''name'', JStr ''''), (''age'', JNum 7)] ''name''
     = lookup [(''name'', JStr '''')] ''name'' \<and>
   lookup [(''name'', JStr ''''), (''age'', JNum 7)] ''age'' = Prim (JNum 7) \<and>
   lookup [(''name'', JStr '''')] ''age'' = Prim JUndefined \<and>
   validateForm no_numeral [(''name'', JStr ''''), (''age'', JNum 7)]
       [(''name'', [RVal (JStr ''required'')])]
     = validateForm no_numeral [(''name'', JStr '''')] [(''name'', [RVal (JStr ''required'')])] \<and>
   validateForm no_numeral [(''name'', JStr ''''), (''age'', JNum 7)]
       [(''name'', [RVal (JStr ''required'')])]
     = Inr \<lparr>isValid = False, errors = [(''name'', JStr ''name is required'')]\<rparr> \<and>
   fst ` set (errors \<lparr>isValid = False, errors = [(''name'', JStr ''name is required'')]\<rparr>)
     \<subseteq> fst ` set [(''name'', [RVal (JStr ''required'')])] \<and>
   validateForm_js [(''name'', JStr ''''), (''age'', JNum 7)] [(''name'', [RFun required_js])]
     = validateForm_js [(''name'', JStr '''')] [(''name'', [RFun required_js])] \<and>
   validateForm_js [(''name'', JStr ''''), (''age'', JNum 7)] [(''name'', [RFun required_js])]
     = Inr [(''name'', JStr ''This field is required'')] \<and>
   fst ` set [(''name'', JStr ''This field is required'')]
     \<subseteq> fst ` set [(''name'', [RFun required_js])]"
proof -
  let ?V = "[(''name'', JStr ''''), (''age'', JNum 7)]"
  let ?W = "[(''name'', JStr '''')]"
  let ?R = "[(''name'', [RVal (JStr ''required'')])]"
  let ?R' = "[(''name'', [RFun required_js])]"
  note inst = validateForm_reads_named_fields_only
    [where R = ?R and V = ?V and W = ?W and ton = no_numeral
       and res = "\<lparr>isValid = False, errors = [(''name'', JStr ''name is required'')]\<rparr>"
       and R' = ?R' and V' = ?V and W' = ?W
       and errs = "[(''name'', JStr ''This field is required'')]"]
  have a: "\<forall>f\<in>fst ` set ?R. lookup ?V f = lookup ?W f"
    "\<forall>f\<in>fst ` set ?R'. lookup ?V f = lookup ?W f"
    by (simp_all add: lookup_def)
  have v: "validateForm no_numeral ?V ?R
      = Inr \<lparr>isValid = False, errors = [(''name'', JStr ''name is required'')]\<rparr>"
    by code_simp
  have v': "validateForm_js ?V ?R' = Inr [(''name'', JStr ''This field is required'')]"
    by code_simp
  from inst a v v' show ?thesis by (simp add: lookup_def object_prototype_def)
qed


subsection \<open>Exchanging and removing a rule\<close>

lemma first_failure_replace:
  "ap r = ap r' \<Longrightarrow> first_failure ap (pre @ r # post) = first_failure ap (pre @ r' # post)"
  by (induction pre) (auto split: sum.splits option.splits)

lemma first_failure_skip:
  "ap r = Inr None \<Longrightarrow> first_failure ap (pre @ r # post) = first_failure ap (pre @ post)"
  by (induction pre) (auto split: sum.splits option.splits)

lemma first_failure_throw:
  "\<forall>q\<in>set pre. ap q = Inr None \<Longrightarrow> ap r = Inl e \<Longrightarrow> first_failure ap (pre @ r # post) = Inl e"
  by (simp add: first_failure_append)

lemma record_failures_field:
  assumes "\<And>e. record_failures ap V ((g, rs) # R2) e = record_failures ap V ((g, rs') # R2) e"
  shows "record_failures ap V (R1 @ (g, rs) # R2) errs =
         record_failures ap V (R1 @ (g, rs') # R2) errs"
  unfolding record_failures_append
  by (cases "record_failures ap V R1 errs") (simp_all add: assms del: record_failures.simps)

lemma record_failures_replace:
  assumes "ap g (lookup V g) r = ap g (lookup V g) r'"
  shows "record_failures ap V (R1 @ (g, pre @ r # post) # R2) errs =
         record_failures ap V (R1 @ (g, pre @ r' # post) # R2) errs"
proof (rule record_failures_field)
  fix e
  show "record_failures ap V ((g, pre @ r # post) # R2) e =
        record_failures ap V ((g, pre @ r' # post) # R2) e"
    using first_failure_replace [of "ap g (lookup V g)" r r' pre post] assms by simp
qed

lemma record_failures_skip:
  assumes "ap g (lookup V g) r = Inr None"
  shows "record_failures ap V (R1 @ (g, pre @ r # post) # R2) errs =
         record_failures ap V (R1 @ (g, pre @ post) # R2) errs"
proof (rule record_failures_field)
  fix e
  show "record_failures ap V ((g, pre @ r # post) # R2) e =
        record_failures ap V ((g, pre @ post) # R2) e"
    using first_failure_skip [of "ap g (lookup V g)" r pre post] assms by simp
qed

lemma record_failures_throw:
  assumes "record_failures ap V R1 errs = Inr errs1"
    and "\<forall>q\<in>set pre. ap g (lookup V g) q = Inr None"
    and "ap g (lookup V g) r = Inl e"
  shows "record_failures ap V (R1 @ (g, pre @ r # post) # R2) errs = Inl e"
  unfolding record_failures_append
  using assms first_failure_throw [of pre "ap g (lookup V g)" r e post] by simp

lemma validateForm_replace:
  assumes "apply_rule ton g (lookup V g) r = apply_rule ton g (lookup V g) r'"
  shows "validateForm ton V (R1 @ (g, pre @ r # post) # R2) =
         validateForm ton V (R1 @ (g, pre @ r' # post) # R2)"
  unfolding validateForm_def check_fields_eq
  using record_failures_replace [of "apply_rule ton" g V r r' R1 pre post R2 "[]", OF assms]
  by (simp only:)

lemma validateForm_skip:
  assumes "apply_rule ton g (lookup V g) r = Inr None"
  shows "validateForm ton V (R1 @ (g, pre @ r # post) # R2) =
         validateForm ton V (R1 @ (g, pre @ post) # R2)"
  unfolding validateForm_def check_fields_eq
  using record_failures_skip [of "apply_rule ton" g V r R1 pre post R2 "[]", OF assms]
  by (simp only:)

lemma apply_rule_RObj_cong:
  assumes "get_prop ob ''validator'' = get_prop ob' ''validator''"
    and "get_prop ob ''message'' = get_prop ob' ''message''"
    and "first_value (rest_params ob) = first_value (rest_params ob')"
  shows "apply_rule ton field v (RObj ob) = apply_rule ton field v (RObj ob')"
  by (simp only: apply_rule.simps Let_def assms)

lemma rest_params_head:
  assumes "rest_params ob = (k, x) # extra"
  shows "k \<noteq> ''validator'' \<and> k \<noteq> ''message''"
proof -
  have "(k, x) \<in> set (rest_params ob)" using assms by simp
  then show ?thesis by (auto simp: rest_params_def)
qed

lemma not_array_index: "\<not> is_array_index ''validator''" "\<not> is_array_index ''message''"
  by (simp_all add: is_array_index_def is_digit_def)

lemma own_property_order_plain:
  assumes "\<forall>(k, v)\<in>set (rest_params written). \<not> is_array_index k"
  shows "own_property_order written = written"
proof -
  have "\<not> is_array_index k" if "(k, v) \<in> set written" for k v
  proof (cases "k = ''validator'' \<or> k = ''message''")
    case True
    then show ?thesis using not_array_index by auto
  next
    case False
    with that have "(k, v) \<in> set (rest_params written)" by (simp add: rest_params_def)
    with assms show ?thesis by auto
  qed
  then have "filter (\<lambda>(k, v). is_array_index k) written = []"
    and "filter (\<lambda>(k, v). \<not> is_array_index k) written = written"
    by (auto simp: filter_empty_conv filter_id_conv)
  then show ?thesis by (simp add: own_property_order_def)
qed

text \<open>
  C10, as stated, fails for a rule object with an array index among its keys: the
  language enumerates such a key before the others, whenever it was written. The rule
  written as \<open>{validator: "minLength", min: 5, 0: 1}\<close> has \<open>min\<close> as the first remaining
  property in the order of insertion; \<open>Object.values\<close> gives the value of \<open>0\<close> first, so
  that the bound passed is 1 and not 5, and the two-letter value passes the rule, which
  fails without the property \<open>0\<close>.
\<close>

theorem object_rule_passes_first_parameter_only_counterexample:
  "own_property_order [(''validator'', JStr ''minLength''), (''min'', JNum 5), (''0'', JNum 1)]
     = [(''0'', JNum 1), (''validator'', JStr ''minLength''), (''min'', JNum 5)] \<and>
   first_value (rest_params [(''validator'', JStr ''minLength''), (''min'', JNum 5), (''0'', JNum 1)])
     = JNum 5 \<and>
   first_value (rest_params [(''0'', JNum 1), (''validator'', JStr ''minLength''), (''min'', JNum 5)])
     = JNum 1 \<and>
   apply_rule no_numeral ''name'' (Prim (JStr ''ab''))
     (RObj [(''0'', JNum 1), (''validator'', JStr ''minLength''), (''min'', JNum 5)])
     = Inr None \<and>
   apply_rule no_numeral ''name'' (Prim (JStr ''ab''))
     (RObj [(''validator'', JStr ''minLength''), (''min'', JNum 5)])
     = Inr (Some (JStr ''name validation failed'')) \<and>
   validateForm no_numeral [(''name'', JStr ''ab'')]
     [(''name'', [RObj [(''0'', JNum 1), (''validator'', JStr ''minLength''), (''min'', JNum 5)]])]
     = Inr \<lparr>isValid = True, errors = []\<rparr> \<and>
   validateForm no_numeral [(''name'', JStr ''ab'')]
     [(''name'', [RObj [(''validator'', JStr ''minLength''), (''min'', JNum 5)]])]
     = Inr \<lparr>isValid = False, errors = [(''name'', JStr ''name validation failed'')]\<rparr>"
proof -
  have "own_property_order [(''validator'', JStr ''minLength''), (''min'', JNum 5), (''0'', JNum 1)]
     = [(''0'', JNum 1), (''validator'', JStr ''minLength''), (''min'', JNum 5)]"
    by (simp add: own_property_order_def is_array_index_def is_digit_def digits_value_def)
  moreover have
    "first_value (rest_params [(''validator'', JStr ''minLength''), (''min'', JNum 5), (''0'', JNum 1)])
       = JNum 5"
    "first_value (rest_params [(''0'', JNum 1), (''validator'', JStr ''minLength''), (''min'', JNum 5)])
       = JNum 1"
    by (simp_all add: rest_params_def first_value_def)
  moreover have "apply_rule no_numeral ''name'' (Prim (JStr ''ab''))
     (RObj [(''0'', JNum 1), (''validator'', JStr ''minLength''), (''min'', JNum 5)])
     = Inr None"
    by code_simp
  moreover have "apply_rule no_numeral ''name'' (Prim (JStr ''ab''))
     (RObj [(''validator'', JStr ''minLength''), (''min'', JNum 5)])
     = Inr (Some (JStr ''name validation failed''))"
    by code_simp
  moreover have "validateForm no_numeral [(''name'', JStr ''ab'')]
     [(''name'', [RObj [(''0'', JNum 1), (''validator'', JStr ''minLength''), (''min'', JNum 5)]])]
     = Inr \<lparr>isValid = True, errors = []\<rparr>"
    by code_simp
  moreover have "validateForm no_numeral [(''name'', JStr ''ab'')]
     [(''name'', [RObj [(''validator'', JStr ''minLength''), (''min'', JNum 5)]])]
     = Inr \<lparr>isValid = False, errors = [(''name'', JStr ''name validation failed'')]\<rparr>"
    by code_simp
  ultimately show ?thesis by (simp only: simp_thms)
qed

text \<open>
  C10, amended. In the object branch of \<open>validateForm\<close> of \<^verbatim>\<open>src/utils.js\<close>, the named
  registry validator is called with the value of the first property that is left after
  \<open>validator\<close> and \<open>message\<close> in the order in which the language enumerates the
  properties of the rule object: when the properties left start with \<open>k\<close> of value \<open>x\<close>
  in that order, the registry member is called with \<open>x\<close> alone and what it returns is
  called with the field's value; the rule evaluates as the rule holding only the
  validator, the message and \<open>k\<close>; any two rule objects that agree on the validator, the
  message and the value of their first remaining property evaluate alike; and the result
  of the whole validation does not change when the further properties are dropped; the
  validation of one field by one such rule fails or passes as the predicate obtained
  from \<open>x\<close> does on the field's value. The order of enumeration is the order of
  insertion whenever no remaining key is an array index.
\<close>

theorem object_rule_passes_first_parameter_only:
  "(rest_params ob = (k, x) # extra \<longrightarrow>
     apply_rule ton field v (RObj ob) =
       (case call (validators ton (to_string (get_prop ob ''validator''))) (Prim x) of
          Inl e \<Rightarrow> Inl e
        | Inr h \<Rightarrow>
            (case call h v of
               Inl e \<Rightarrow> Inl e
             | Inr outcome \<Rightarrow>
                 Inr (if truthy_res outcome then None
                      else Some (if truthy (get_prop ob ''message'') then get_prop ob ''message''
                                 else JStr (field @ '' validation failed''))))) \<and>
     apply_rule ton field v (RObj ob) =
       apply_rule ton field v
         (RObj [(''validator'', get_prop ob ''validator''), (''message'', get_prop ob ''message''),
                (k, x)]) \<and>
     (get_prop ob' ''validator'' = get_prop ob ''validator'' \<and>
      get_prop ob' ''message'' = get_prop ob ''message'' \<and>
      rest_params ob' = (k', x) # extra' \<longrightarrow>
        apply_rule ton field v (RObj ob') = apply_rule ton field v (RObj ob)) \<and>
     validateForm ton V (R1 @ (g, pre @ RObj ob # post) # R2) =
       validateForm ton V
         (R1 @ (g, pre @ RObj [(''validator'', get_prop ob ''validator''),
                               (''message'', get_prop ob ''message''), (k, x)] # post) # R2)) \<and>
   ((\<forall>(k, v)\<in>set (rest_params written). \<not> is_array_index k) \<longrightarrow>
      own_property_order written = written \<and>
      first_value (rest_params (own_property_order written)) = first_value (rest_params written)) \<and>
   (rest_params ob = (k, x) # extra \<and> fld \<noteq> ''__proto__'' \<and>
    call (validators ton (to_string (get_prop ob ''validator''))) (Prim x) = Inr h \<and>
    call h (lookup W fld) = Inr outcome \<longrightarrow>
      validateForm ton W [(fld, [RObj ob])] =
        Inr (if truthy_res outcome then \<lparr>isValid = True, errors = []\<rparr>
             else \<lparr>isValid = False,
                    errors = [(fld, if truthy (get_prop ob ''message'') then get_prop ob ''message''
                                    else JStr (fld @ '' validation failed''))]\<rparr>))"
proof (intro conjI impI)
  assume rp: "rest_params ob = (k, x) # extra"
  let ?small = "[(''validator'', get_prop ob ''validator''), (''message'', get_prop ob ''message''),
                 (k, x)]"
  from rest_params_head [OF rp] have k: "k \<noteq> ''validator''" "k \<noteq> ''message''" by simp_all
  have small: "apply_rule ton fld w (RObj ob) = apply_rule ton fld w (RObj ?small)" for fld w
    using k rp by (intro apply_rule_RObj_cong) (simp_all add: get_prop_def rest_params_def first_value_def)
  show "apply_rule ton field v (RObj ob) =
       (case call (validators ton (to_string (get_prop ob ''validator''))) (Prim x) of
          Inl e \<Rightarrow> Inl e
        | Inr h \<Rightarrow>
            (case call h v of
               Inl e \<Rightarrow> Inl e
             | Inr outcome \<Rightarrow>
                 Inr (if truthy_res outcome then None
                      else Some (if truthy (get_prop ob ''message'') then get_prop ob ''message''
                                 else JStr (field @ '' validation failed'')))))"
    using rp by (simp add: first_value_def split: sum.splits)
  show "apply_rule ton field v (RObj ob) = apply_rule ton field v (RObj ?small)"
    by (rule small)
  show "validateForm ton V (R1 @ (g, pre @ RObj ob # post) # R2) =
       validateForm ton V (R1 @ (g, pre @ RObj ?small # post) # R2)"
    by (rule validateForm_replace) (rule small)
  assume "get_prop ob' ''validator'' = get_prop ob ''validator'' \<and>
      get_prop ob' ''message'' = get_prop ob ''message'' \<and>
      rest_params ob' = (k', x) # extra'"
  then show "apply_rule ton field v (RObj ob') = apply_rule ton field v (RObj ob)"
    using rp by (intro apply_rule_RObj_cong) (simp_all add: first_value_def)
next
  assume a: "\<forall>(k, v)\<in>set (rest_params written). \<not> is_array_index k"
  from own_property_order_plain [OF a] show "own_property_order written = written" .
  then show "first_value (rest_params (own_property_order written)) = first_value (rest_params written)"
    by simp
next
  assume "rest_params ob = (k, x) # extra \<and> fld \<noteq> ''__proto__'' \<and>
    call (validators ton (to_string (get_prop ob ''validator''))) (Prim x) = Inr h \<and>
    call h (lookup W fld) = Inr outcome"
  then show "validateForm ton W [(fld, [RObj ob])] =
        Inr (if truthy_res outcome then \<lparr>isValid = True, errors = []\<rparr>
             else \<lparr>isValid = False,
                    errors = [(fld, if truthy (get_prop ob ''message'') then get_prop ob ''message''
                                    else JStr (fld @ '' validation failed''))]\<rparr>)"
    by (simp add: validateForm_def store_def first_value_def)
qed


theorem object_rule_passes_first_parameter_only_witness:
  "rest_params [(''validator'', JStr ''minLength''), (''min'', JNum 3), (''max'', JNum 50),
                (''message'', JStr ''too short'')]
     = (''min'', JNum 3) # [(''max'', JNum 50)] \<and>
   apply_rule no_numeral ''name'' (Prim (JStr ''ab''))
     (RObj [(''validator'', JStr ''minLength''), (''min'', JNum 3), (''max'', JNum 50),
            (''message'', JStr ''too short'')])
     = Inr (Some (JStr ''too short'')) \<and>
   apply_rule no_numeral ''name'' (Prim (JStr ''ab''))
     (RObj [(''validator'', JStr ''minLength''), (''min'', JNum 3), (''max'', JNum 50),
            (''message'', JStr ''too short'')])
     = apply_rule no_numeral ''name'' (Prim (JStr ''ab''))
         (RObj [(''validator'', JStr ''minLength''), (''message'', JStr ''too short''),
                (''min'', JNum 3)]) \<and>
   apply_rule no_numeral ''name'' (Prim (JStr ''ab''))
     (RObj [(''message'', JStr ''too short''), (''validator'', JStr ''minLength''),
            (''len'', JNum 3), (''other'', JNum 1)])
     = apply_rule no_numeral ''name'' (Prim (JStr ''ab''))
         (RObj [(''validator'', JStr ''minLength''), (''min'', JNum 3), (''max'', JNum 50),
                (''message'', JStr ''too short'')]) \<and>
   validateForm no_numeral [(''name'', JStr ''ab'')]
     [(''name'', [RObj [(''validator'', JStr ''minLength''), (''min'', JNum 3), (''max'', JNum 50),
                        (''message'', JStr ''too short'')]])]
     = validateForm no_numeral [(''name'', JStr ''ab'')]
         [(''name'', [RObj [(''validator'', JStr ''minLength''), (''message'', JStr ''too short''),
                            (''min'', JNum 3)]])] \<and>
   \<not> is_array_index ''min'' \<and> \<not> is_array_index ''max'' \<and>
   own_property_order [(''validator'', JStr ''minLength''), (''min'', JNum 3), (''max'', JNum 50),
                       (''message'', JStr ''too short'')]
     = [(''validator'', JStr ''minLength''), (''min'', JNum 3), (''max'', JNum 50),
        (''message'', JStr ''too short'')] \<and>
   call (validators no_numeral ''minLength'') (Prim (JNum 3))
     = Inr (Fun (\<lambda>v. Inr (Val (Prim (minLength no_numeral (Prim (JNum 3)) v))))) \<and>
   call (Fun (\<lambda>v. Inr (Val (Prim (minLength no_numeral (Prim (JNum 3)) v)))))
       (lookup [(''name'', JStr ''ab'')] ''name'')
     = Inr (Val (Prim (JBool False))) \<and>
   validateForm no_numeral [(''name'', JStr ''ab'')]
     [(''name'', [RObj [(''validator'', JStr ''minLength''), (''min'', JNum 3), (''max'', JNum 50),
                        (''message'', JStr ''too short'')]])]
     = Inr \<lparr>isValid = False, errors = [(''name'', JStr ''too short'')]\<rparr> \<and>
   rest_params [(''validator'', JStr ''minLength''), (''min'', JNum 2), (''max'', JNum 50),
                (''message'', JStr ''too short'')]
     = (''min'', JNum 2) # [(''max'', JNum 50)] \<and>
   call (validators no_numeral ''minLength'') (Prim (JNum 2))
     = Inr (Fun (\<lambda>v. Inr (Val (Prim (minLength no_numeral (Prim (JNum 2)) v))))) \<and>
   call (Fun (\<lambda>v. Inr (Val (Prim (minLength no_numeral (Prim (JNum 2)) v)))))
       (lookup [(''name'', JStr ''ab'')] ''name'')
     = Inr (Val (Prim (JBool True))) \<and>
   validateForm no_numeral [(''name'', JStr ''ab'')]
     [(''name'', [RObj [(''validator'', JStr ''minLength''), (''min'', JNum 2), (''max'', JNum 50),
                        (''message'', JStr ''too short'')]])]
     = Inr \<lparr>isValid = True, errors = []\<rparr>"
proof -
  let ?ob = "[(''validator'', JStr ''minLength''), (''min'', JNum 3), (''max'', JNum 50),
              (''message'', JStr ''too short'')]"
  let ?ob2 = "[(''validator'', JStr ''minLength''), (''min'', JNum 2), (''max'', JNum 50),
               (''message'', JStr ''too short'')]"
  let ?ob' = "[(''message'', JStr ''too short''), (''validator'', JStr ''minLength''),
               (''len'', JNum 3), (''other'', JNum 1)]"
  let ?h = "Fun (\<lambda>v. Inr (Val (Prim (minLength no_numeral (Prim (JNum 3)) v))))"
  let ?h2 = "Fun (\<lambda>v. Inr (Val (Prim (minLength no_numeral (Prim (JNum 2)) v))))"
  let ?W = "[(''name'', JStr ''ab'')]"
  note inst = object_rule_passes_first_parameter_only
    [where ob = ?ob and k = "''min''" and x = "JNum 3" and extra = "[(''max'', JNum 50)]"
       and ton = no_numeral and v = "Prim (JStr ''ab'')" and field = "''name''"
       and ob' = ?ob' and k' = "''len''" and extra' = "[(''other'', JNum 1)]"
       and V = ?W and ?R1.0 = "[]" and g = "''name''" and pre = "[]"
       and post = "[]" and ?R2.0 = "[]" and written = ?ob
       and fld = "''name''" and W = ?W and h = ?h and outcome = "Val (Prim (JBool False))"]
  note inst2 = object_rule_passes_first_parameter_only
    [where ob = ?ob2 and k = "''min''" and x = "JNum 2" and extra = "[(''max'', JNum 50)]"
       and ton = no_numeral
       and fld = "''name''" and W = ?W and h = ?h2 and outcome = "Val (Prim (JBool True))"]
  have rp: "rest_params ?ob = (''min'', JNum 3) # [(''max'', JNum 50)]"
    and rp': "rest_params ?ob' = (''len'', JNum 3) # [(''other'', JNum 1)]"
    and rp2: "rest_params ?ob2 = (''min'', JNum 2) # [(''max'', JNum 50)]"
    by (simp_all add: rest_params_def)
  have gp: "get_prop ?ob ''validator'' = JStr ''minLength''"
    "get_prop ?ob ''message'' = JStr ''too short''"
    "get_prop ?ob' ''validator'' = JStr ''minLength''"
    "get_prop ?ob' ''message'' = JStr ''too short''"
    "get_prop ?ob2 ''validator'' = JStr ''minLength''"
    "get_prop ?ob2 ''message'' = JStr ''too short''"
    by (simp_all add: get_prop_def)
  have idx: "\<not> is_array_index ''min''" "\<not> is_array_index ''max''"
    by (simp_all add: is_array_index_def is_digit_def)
  have hyp: "\<forall>(k, v)\<in>set (rest_params ?ob). \<not> is_array_index k"
    using rp idx by simp
  have c: "call (validators no_numeral ''minLength'') (Prim (JNum 3)) = Inr ?h"
    "call (validators no_numeral ''minLength'') (Prim (JNum 2)) = Inr ?h2"
    by (simp_all add: validators_def)
  have o: "call ?h (lookup ?W ''name'') = Inr (Val (Prim (JBool False)))"
    "call ?h2 (lookup ?W ''name'') = Inr (Val (Prim (JBool True)))"
    by (simp_all add: lookup_def minLength_def)
  have out: "apply_rule no_numeral ''name'' (Prim (JStr ''ab'')) (RObj ?ob)
      = Inr (Some (JStr ''too short''))"
    by code_simp
  have same: "JStr ''minLength'' = JStr ''minLength'' \<and> JStr ''too short'' = JStr ''too short'' \<and>
      rest_params ?ob' = (''len'', JNum 3) # [(''other'', JNum 1)]"
    using rp' by simp
  have t: "rest_params ?ob = (''min'', JNum 3) # [(''max'', JNum 50)] \<and> ''name'' \<noteq> ''__proto__'' \<and>
      call (validators no_numeral (to_string (JStr ''minLength''))) (Prim (JNum 3)) = Inr ?h \<and>
      call ?h (lookup ?W ''name'') = Inr (Val (Prim (JBool False)))"
    using rp c o by simp
  have t2: "rest_params ?ob2 = (''min'', JNum 2) # [(''max'', JNum 50)] \<and> ''name'' \<noteq> ''__proto__'' \<and>
      call (validators no_numeral (to_string (JStr ''minLength''))) (Prim (JNum 2)) = Inr ?h2 \<and>
      call ?h2 (lookup ?W ''name'') = Inr (Val (Prim (JBool True)))"
    using rp2 c o by simp
  note i = inst [unfolded gp append_Nil]
  note i2 = inst2 [unfolded gp append_Nil]
  note first = i [THEN conjunct1, THEN mp, OF rp]
  note k1 = first [THEN conjunct2, THEN conjunct1]
  note k2 = first [THEN conjunct2, THEN conjunct2, THEN conjunct1, THEN mp, OF same]
  note k3 = first [THEN conjunct2, THEN conjunct2, THEN conjunct2]
  note k4 = i [THEN conjunct2, THEN conjunct1, THEN mp, OF hyp, THEN conjunct1]
  note k5 = i [THEN conjunct2, THEN conjunct2, THEN mp, OF t]
  note k6 = i2 [THEN conjunct2, THEN conjunct2, THEN mp, OF t2]
  from k1 k2 k3 k4 k5 k6 rp rp2 idx c o out show ?thesis
    by (simp del: apply_rule.simps)
qed

text \<open>
  C2, as the specification states it, fails: \<open>validateForm\<close> of \<^verbatim>\<open>src/utils.js\<close> skips a
  function rule although the function reports a failure, and \<open>validateForm\<close> of
  \<^verbatim>\<open>src/js/utils.js\<close> raises a type error on a named rule that would fail.
\<close>

theorem validateForm_rule_shapes_counterexample:
  "required_js (Prim (JStr '''')) = Inr (JStr ''This field is required'') \<and>
   validateForm no_numeral [(''name'', JStr '''')] [(''name'', [RFun required_js])]
     = Inr \<lparr>isValid = True, errors = []\<rparr> \<and>
   required (Prim (JStr '''')) = JStr '''' \<and> \<not> truthy (JStr '''') \<and>
   validateForm_js [(''name'', JStr '''')] [(''name'', [RVal (JStr ''required'')])]
     = Inl TypeError"
  by (simp add: required_js_def required_def validateForm_def validateForm_js_def lookup_def)

text \<open>
  C2, amended. A rule is reached when every rule before it in the list of its field has
  passed. \<open>validateForm\<close> of \<^verbatim>\<open>src/utils.js\<close> supports the named references: a string
  rule whose registry member returns a falsy result on the value fails with
  \<open>"<field> is <name>"\<close>; an object rule whose registry member, called with the first
  parameter, returns a predicate that is falsy on the value fails with its custom
  message, or with \<open>"<field> validation failed"\<close> without one; a function rule passes
  without being called, so that removing it from the list changes nothing. In either
  file a reached rule that fails with a message has this message recorded for its
  field, the field \<open>__proto__\<close> apart, when the call returns. \<open>validateForm\<close> of
  \<^verbatim>\<open>src/js/utils.js\<close> supports the function rules: the function fails with its truthy
  result as the message and passes with a falsy one; a reached rule that is not a
  function, or whose function throws, makes the whole call throw.
\<close>

theorem validateForm_rule_shapes:
  "(call (validators ton name) v = Inr outcome \<and> \<not> truthy_res outcome \<longrightarrow>
      apply_rule ton f v (RVal (JStr name)) = Inr (Some (JStr (f @ '' is '' @ name)))) \<and>
   (call (validators ton (to_string (get_prop ob ''validator'')))
      (Prim (first_value (rest_params ob))) = Inr h \<and>
    call h v = Inr w \<and> \<not> truthy_res w \<longrightarrow>
      apply_rule ton f v (RObj ob)
        = Inr (Some (if truthy (get_prop ob ''message'') then get_prop ob ''message''
                     else JStr (f @ '' validation failed'')))) \<and>
   apply_rule ton f v (RFun fn) = Inr None \<and>
   validateForm ton V (R1 @ (g, before @ RFun fn # later) # R2)
     = validateForm ton V (R1 @ (g, before @ later) # R2) \<and>
   (distinct (map fst R) \<and> f \<noteq> ''__proto__'' \<and> map_of R f = Some (pre @ r # post) \<and>
    (\<forall>q\<in>set pre. apply_rule ton f (lookup V f) q = Inr None) \<and>
    apply_rule ton f (lookup V f) r = Inr (Some m) \<and> validateForm ton V R = Inr res \<longrightarrow>
      map_of (errors res) f = Some m \<and> \<not> isValid res) \<and>
   (fn v' = Inr msg \<and> truthy msg \<longrightarrow> apply_rule_js v' (RFun fn) = Inr (Some msg)) \<and>
   (fn v' = Inr msg \<and> \<not> truthy msg \<longrightarrow> apply_rule_js v' (RFun fn) = Inr None) \<and>
   (fn v' = Inl e \<longrightarrow> apply_rule_js v' (RFun fn) = Inl e) \<and>
   apply_rule_js v' (RVal prim) = Inl TypeError \<and>
   apply_rule_js v' (RObj ob') = Inl TypeError \<and>
   (distinct (map fst R') \<and> f' \<noteq> ''__proto__'' \<and> map_of R' f' = Some (pre' @ r' # post') \<and>
    (\<forall>q\<in>set pre'. apply_rule_js (lookup V' f') q = Inr None) \<and>
    apply_rule_js (lookup V' f') r' = Inr (Some n) \<and> validateForm_js V' R' = Inr errs \<longrightarrow>
      map_of errs f' = Some n) \<and>
   (validateForm_js V' S1 = Inr errs1 \<and>
    (\<forall>q\<in>set before'. apply_rule_js (lookup V' g') q = Inr None) \<and>
    apply_rule_js (lookup V' g') bad = Inl e' \<longrightarrow>
      validateForm_js V' (S1 @ (g', before' @ bad # later') # S2) = Inl e')"
proof (intro conjI impI)
  assume "call (validators ton name) v = Inr outcome \<and> \<not> truthy_res outcome"
  then show "apply_rule ton f v (RVal (JStr name)) = Inr (Some (JStr (f @ '' is '' @ name)))"
    by simp
next
  assume "call (validators ton (to_string (get_prop ob ''validator'')))
      (Prim (first_value (rest_params ob))) = Inr h \<and>
    call h v = Inr w \<and> \<not> truthy_res w"
  then show "apply_rule ton f v (RObj ob)
        = Inr (Some (if truthy (get_prop ob ''message'') then get_prop ob ''message''
                     else JStr (f @ '' validation failed'')))"
    by simp
next
  show "apply_rule ton f v (RFun fn) = Inr None" by simp
next
  show "validateForm ton V (R1 @ (g, before @ RFun fn # later) # R2)
     = validateForm ton V (R1 @ (g, before @ later) # R2)"
    by (rule validateForm_skip) simp
next
  assume a: "distinct (map fst R) \<and> f \<noteq> ''__proto__'' \<and> map_of R f = Some (pre @ r # post) \<and>
    (\<forall>q\<in>set pre. apply_rule ton f (lookup V f) q = Inr None) \<and>
    apply_rule ton f (lookup V f) r = Inr (Some m) \<and> validateForm ton V R = Inr res"
  then have d: "distinct (map fst R)" and f: "f \<noteq> ''__proto__''"
    and rf: "record_failures (apply_rule ton) V R [] = Inr (errors res)"
    and iv: "isValid res = (errors res = [])"
    by (simp_all add: validateForm_Inr)
  from a have "\<exists>pre r post. map_of R f = Some (pre @ r # post) \<and>
      (\<forall>q\<in>set pre. apply_rule ton f (lookup V f) q = Inr None) \<and>
      apply_rule ton f (lookup V f) r = Inr (Some m)"
    by blast
  then show m: "map_of (errors res) f = Some m"
    using record_failures_message [OF d rf f, of m] by simp
  then have "errors res \<noteq> []" by auto
  with iv show "\<not> isValid res" by simp
next
  assume "fn v' = Inr msg \<and> truthy msg"
  then show "apply_rule_js v' (RFun fn) = Inr (Some msg)" by simp
next
  assume "fn v' = Inr msg \<and> \<not> truthy msg"
  then show "apply_rule_js v' (RFun fn) = Inr None" by simp
next
  assume "fn v' = Inl e"
  then show "apply_rule_js v' (RFun fn) = Inl e" by simp
next
  show "apply_rule_js v' (RVal prim) = Inl TypeError" by simp
next
  show "apply_rule_js v' (RObj ob') = Inl TypeError" by simp
next
  assume a: "distinct (map fst R') \<and> f' \<noteq> ''__proto__'' \<and> map_of R' f' = Some (pre' @ r' # post') \<and>
    (\<forall>q\<in>set pre'. apply_rule_js (lookup V' f') q = Inr None) \<and>
    apply_rule_js (lookup V' f') r' = Inr (Some n) \<and> validateForm_js V' R' = Inr errs"
  then have d: "distinct (map fst R')" and f: "f' \<noteq> ''__proto__''"
    and rf: "record_failures (\<lambda>f. apply_rule_js) V' R' [] = Inr errs"
    by (simp_all add: validateForm_js_Inr)
  from a have "\<exists>pre r post. map_of R' f' = Some (pre @ r # post) \<and>
      (\<forall>q\<in>set pre. apply_rule_js (lookup V' f') q = Inr None) \<and>
      apply_rule_js (lookup V' f') r = Inr (Some n)"
    by blast
  then show "map_of errs f' = Some n"
    using record_failures_message [OF d rf f, of n] by simp
next
  assume a: "validateForm_js V' S1 = Inr errs1 \<and>
    (\<forall>q\<in>set before'. apply_rule_js (lookup V' g') q = Inr None) \<and>
    apply_rule_js (lookup V' g') bad = Inl e'"
  then have "record_failures (\<lambda>f. apply_rule_js) V' S1 [] = Inr errs1"
    by (simp add: validateForm_js_Inr)
  from record_failures_throw [OF this, of before' g' bad e' later' S2] a
  show "validateForm_js V' (S1 @ (g', before' @ bad # later') # S2) = Inl e'"
    by (simp add: validateForm_js_def check_fields_js_eq)
qed


theorem validateForm_rule_shapes_witness:
  "call (validators no_numeral ''required'') (Prim (JStr '''')) = Inr (Val (Prim (JStr ''''))) \<and>
   \<not> truthy_res (Val (Prim (JStr ''''))) \<and>
   apply_rule no_numeral ''name'' (Prim (JStr '''')) (RVal (JStr ''required''))
     = Inr (Some (JStr ''name is required'')) \<and>
   call (validators no_numeral ''minLength'') (Prim (JNum 3))
     = Inr (Fun (\<lambda>v. Inr (Val (Prim (minLength no_numeral (Prim (JNum 3)) v))))) \<and>
   call (Fun (\<lambda>v. Inr (Val (Prim (minLength no_numeral (Prim (JNum 3)) v))))) (Prim (JStr ''''))
     = Inr (Val (Prim (JStr ''''))) \<and>
   apply_rule no_numeral ''name'' (Prim (JStr ''''))
       (RObj [(''validator'', JStr ''minLength''), (''min'', JNum 3)])
     = Inr (Some (JStr ''name validation failed'')) \<and>
   apply_rule no_numeral ''name'' (Prim (JStr '''')) (RFun required_js) = Inr None \<and>
   validateForm no_numeral [(''name'', JStr '''')]
       [(''name'', [RFun required_js, RVal (JStr ''required''), RVal (JStr ''nosuch'')])]
     = validateForm no_numeral [(''name'', JStr '''')]
         [(''name'', [RVal (JStr ''required''), RVal (JStr ''nosuch'')])] \<and>
   validateForm no_numeral [(''name'', JStr '''')]
       [(''name'', [RFun required_js, RVal (JStr ''required''), RVal (JStr ''nosuch'')])]
     = Inr \<lparr>isValid = False, errors = [(''name'', JStr ''name is required'')]\<rparr> \<and>
   map_of (errors \<lparr>isValid = False, errors = [(''name'', JStr ''name is required'')]\<rparr>) ''name''
     = Some (JStr ''name is required'') \<and>
   required_js (Prim (JStr '''')) = Inr (JStr ''This field is required'') \<and>
   apply_rule_js (Prim (JStr '''')) (RFun required_js)
     = Inr (Some (JStr ''This field is required'')) \<and>
   required_js (Prim (JStr ''a'')) = Inr JNull \<and>
   apply_rule_js (Prim (JStr ''a'')) (RFun required_js) = Inr None \<and>
   required_js (Prim (JNum 5)) = Inl TypeError \<and>
   apply_rule_js (Prim (JNum 5)) (RFun required_js) = Inl TypeError \<and>
   validateForm_js [(''name'', JStr ''a'')]
       [(''name'', [RFun required_js, RFun (minLength_js no_numeral (JNum 3)), RVal JNull])]
     = Inr [(''name'', JStr ''Must be at least 3 characters'')] \<and>
   map_of [(''name'', JStr ''Must be at least 3 characters'')] ''name''
     = Some (JStr ''Must be at least 3 characters'') \<and>
   validateForm_js [(''name'', JStr ''a'')] [] = Inr [] \<and>
   validateForm_js [(''name'', JStr ''a'')] [(''name'', [RFun required_js, RVal JNull])]
     = Inl TypeError"
proof -
  let ?V = "[(''name'', JStr '''')]"
  let ?W = "[(''name'', JStr ''a'')]"
  let ?ob = "[(''validator'', JStr ''minLength''), (''min'', JNum 3)]"
  let ?h = "Fun (\<lambda>v. Inr (Val (Prim (minLength no_numeral (Prim (JNum 3)) v))))"
  let ?R = "[(''name'', [RFun required_js, RVal (JStr ''required''), RVal (JStr ''nosuch'')])]"
  let ?res = "\<lparr>isValid = False, errors = [(''name'', JStr ''name is required'')]\<rparr>"
  let ?R' = "[(''name'', [RFun required_js, RFun (minLength_js no_numeral (JNum 3)), RVal JNull])]"
  let ?n = "JStr ''Must be at least 3 characters''"
  note inst = validateForm_rule_shapes
    [where ton = no_numeral and name = "''required''" and v = "Prim (JStr '''')"
       and outcome = "Val (Prim (JStr ''''))" and f = "''name''"
       and ob = ?ob and h = ?h and w = "Val (Prim (JStr ''''))"
       and fn = required_js and V = ?V and ?R1.0 = "[]" and g = "''name''" and before = "[]"
       and later = "[RVal (JStr ''required''), RVal (JStr ''nosuch'')]" and ?R2.0 = "[]"
       and R = ?R and pre = "[RFun required_js]" and r = "RVal (JStr ''required'')"
       and post = "[RVal (JStr ''nosuch'')]" and m = "JStr ''name is required''" and res = ?res
       and v' = "Prim (JStr '''')" and msg = "JStr ''This field is required''"
       and R' = ?R' and V' = ?W and f' = "''name''" and pre' = "[RFun required_js]"
       and r' = "RFun (minLength_js no_numeral (JNum 3))" and post' = "[RVal JNull]"
       and n = ?n and errs = "[(''name'', ?n)]"
       and ?S1.0 = "[]" and ?errs1.0 = "[]" and g' = "''name''" and before' = "[RFun required_js]"
       and bad = "RVal JNull" and e' = TypeError and later' = "[]" and ?S2.0 = "[]"]
  note inst' = validateForm_rule_shapes
    [where fn = required_js and v' = "Prim (JStr ''a'')" and msg = JNull]
  note inst'' = validateForm_rule_shapes
    [where fn = required_js and v' = "Prim (JNum 5)" and e = TypeError]
  have c1: "call (validators no_numeral ''required'') (Prim (JStr '''')) = Inr (Val (Prim (JStr '''')))"
    by (simp add: validators_def required_def)
  have c2: "call (validators no_numeral (to_string (get_prop ?ob ''validator'')))
      (Prim (first_value (rest_params ?ob))) = Inr ?h"
    by (simp add: validators_def get_prop_def rest_params_def first_value_def)
  have c2': "call (validators no_numeral ''minLength'') (Prim (JNum 3)) = Inr ?h"
    by (simp add: validators_def)
  have c3: "call ?h (Prim (JStr '''')) = Inr (Val (Prim (JStr '''')))"
    by (simp add: minLength_def)
  have gp: "get_prop ?ob ''message'' = JUndefined"
    by (simp add: get_prop_def)
  have lk: "lookup ?V ''name'' = Prim (JStr '''')" "lookup ?W ''name'' = Prim (JStr ''a'')"
    by (simp_all add: lookup_def)
  have r1: "required_js (Prim (JStr '''')) = Inr (JStr ''This field is required'')"
    "required_js (Prim (JStr ''a'')) = Inr JNull"
    "required_js (Prim (JNum 5)) = Inl TypeError"
    by (simp_all add: required_js_def trim_def is_space_def)
  have m1: "apply_rule_js (Prim (JStr ''a'')) (RFun (minLength_js no_numeral (JNum 3))) = Inr (Some ?n)"
    by code_simp
  have a1: "apply_rule no_numeral ''name'' (Prim (JStr '''')) (RVal (JStr ''required''))
      = Inr (Some (JStr ''name is required''))"
    using c1 by simp
  have v: "validateForm no_numeral ?V ?R = Inr ?res"
    by code_simp
  have v': "validateForm_js ?W ?R' = Inr [(''name'', ?n)]"
    by code_simp
  have v0: "validateForm_js ?W [] = Inr []"
    by (simp add: validateForm_js_def)
  have t1: "call (validators no_numeral ''required'') (Prim (JStr '''')) = Inr (Val (Prim (JStr ''''))) \<and>
      \<not> truthy_res (Val (Prim (JStr '''')))"
    using c1 by simp
  have t2: "call (validators no_numeral (to_string (get_prop ?ob ''validator'')))
        (Prim (first_value (rest_params ?ob))) = Inr ?h \<and>
      call ?h (Prim (JStr '''')) = Inr (Val (Prim (JStr ''''))) \<and> \<not> truthy_res (Val (Prim (JStr '''')))"
    using c2 c3 by simp
  have t3: "distinct (map fst ?R) \<and> ''name'' \<noteq> ''__proto__'' \<and>
      map_of ?R ''name'' = Some ([RFun required_js] @ RVal (JStr ''required'') # [RVal (JStr ''nosuch'')]) \<and>
      (\<forall>q\<in>set [RFun required_js]. apply_rule no_numeral ''name'' (lookup ?V ''name'') q = Inr None) \<and>
      apply_rule no_numeral ''name'' (lookup ?V ''name'') (RVal (JStr ''required''))
        = Inr (Some (JStr ''name is required'')) \<and>
      validateForm no_numeral ?V ?R = Inr ?res"
    using a1 v lk by simp
  have t4: "required_js (Prim (JStr '''')) = Inr (JStr ''This field is required'') \<and>
      truthy (JStr ''This field is required'')"
    using r1 by simp
  have t5: "distinct (map fst ?R') \<and> ''name'' \<noteq> ''__proto__'' \<and>
      map_of ?R' ''name''
        = Some ([RFun required_js] @ RFun (minLength_js no_numeral (JNum 3)) # [RVal JNull]) \<and>
      (\<forall>q\<in>set [RFun required_js]. apply_rule_js (lookup ?W ''name'') q = Inr None) \<and>
      apply_rule_js (lookup ?W ''name'') (RFun (minLength_js no_numeral (JNum 3))) = Inr (Some ?n) \<and>
      validateForm_js ?W ?R' = Inr [(''name'', ?n)]"
    using m1 v' lk r1 by simp
  have t6: "validateForm_js ?W [] = Inr [] \<and>
      (\<forall>q\<in>set [RFun required_js]. apply_rule_js (lookup ?W ''name'') q = Inr None) \<and>
      apply_rule_js (lookup ?W ''name'') (RVal JNull) = Inl TypeError"
    using v0 lk r1 by simp
  have t7: "required_js (Prim (JStr ''a'')) = Inr JNull \<and> \<not> truthy JNull"
    using r1 by simp
  note i = inst [unfolded gp append_Nil]
  note k1 = i [THEN conjunct2, THEN conjunct1, THEN mp, OF t2]
  note k2 = i [THEN conjunct2, THEN conjunct2, THEN conjunct1]
  note k3 = i [THEN conjunct2, THEN conjunct2, THEN conjunct2, THEN conjunct1]
  note k4 = i [THEN conjunct2, THEN conjunct2, THEN conjunct2, THEN conjunct2, THEN conjunct1, THEN mp, OF t3]
  note k5 = i [THEN conjunct2, THEN conjunct2, THEN conjunct2, THEN conjunct2, THEN conjunct2, THEN conjunct1, THEN mp, OF t4]
  note k6 = i [THEN conjunct2, THEN conjunct2, THEN conjunct2, THEN conjunct2, THEN conjunct2, THEN conjunct2, THEN conjunct2, THEN conjunct2, THEN conjunct2, THEN conjunct2, THEN conjunct1, THEN mp, OF t5]
  note k7 = i [THEN conjunct2, THEN conjunct2, THEN conjunct2, THEN conjunct2, THEN conjunct2, THEN conjunct2, THEN conjunct2, THEN conjunct2, THEN conjunct2, THEN conjunct2, THEN conjunct2, THEN mp, OF t6]
  note k8 = inst' [THEN conjunct2, THEN conjunct2, THEN conjunct2, THEN conjunct2, THEN conjunct2, THEN conjunct2, THEN conjunct1, THEN mp, OF t7]
  note k9 = inst'' [THEN conjunct2, THEN conjunct2, THEN conjunct2, THEN conjunct2, THEN conjunct2, THEN conjunct2, THEN conjunct2, THEN conjunct1, THEN mp, OF r1(3)]
  from k1 k2 k3 k4 k5 k6 k7 k8 k9 c1 c2' c3 a1 v v0 v' r1 show ?thesis
    by (simp del: apply_rule.simps apply_rule_js.simps)
qed

section \<open>Claims about the phone validator\<close>

text \<open>
  What the two phone validators accept: the value must be a string, and what is left
  of it after the stripping must have the shape of a phone number. The validator of
  \<^verbatim>\<open>src/js/utils.js\<close> strips white space; the one of \<^verbatim>\<open>src/utils.js\<close> strips white space,
  dashes and dollar signs.
\<close>

lemma phone_js_accepts:
  "phone_js v = Inr JNull \<longleftrightarrow> (\<exists>s. v = Prim (JStr s) \<and> phone_shape (filter (\<lambda>c. \<not> is_space c) s))"
  by (auto simp: phone_js_def test_phoneRegex strip_def split: field_value.splits jsval.splits)

lemma phone_accepts:
  "phone v = Inr (JBool True) \<longleftrightarrow>
     (\<exists>s. v = Prim (JStr s) \<and>
        phone_shape (filter (\<lambda>c. \<not> is_space c \<and> c \<noteq> CHR ''-'' \<and> c \<noteq> CHR ''$'') s))"
proof -
  have "(\<lambda>c. \<not> list_ex (in_item c)
            [Space, Lit CHR ''-'', Lit CHR ''$'', Lit CHR ''$'', Lit CHR ''$'', Lit CHR ''$''])
      = (\<lambda>c. \<not> is_space c \<and> c \<noteq> CHR ''-'' \<and> c \<noteq> CHR ''$'')"
    by auto
  then show ?thesis
    by (auto simp: phone_def test_phoneRegex strip_def split: field_value.splits jsval.splits)
qed

text \<open>
  C5. Both validators accept \<open>"+12345678901"\<close> and reject \<open>"0123"\<close> and \<open>"abc"\<close>. The
  validator of \<^verbatim>\<open>src/utils.js\<close> does not strip parentheses: it rejects \<open>"(555)1234"\<close>,
  which has the shape of a phone number once white space, parentheses and dashes are
  stripped, and it accepts \<open>"$5551234"\<close>, which has not.
\<close>

theorem phone_keeps_parentheses:
  "phone (Prim (JStr ''(555)1234'')) = Inr (JBool False) \<and>
   phone_shape (filter (\<lambda>c. \<not> is_space c \<and> c \<notin> set ''()-'') ''(555)1234'') \<and>
   phone (Prim (JStr ''$5551234'')) = Inr (JBool True) \<and>
   \<not> phone_shape (filter (\<lambda>c. \<not> is_space c \<and> c \<notin> set ''()-'') ''$5551234'') \<and>
   phone (Prim (JStr ''+12345678901'')) = Inr (JBool True) \<and>
   phone (Prim (JStr ''0123'')) = Inr (JBool False) \<and>
   phone (Prim (JStr ''abc'')) = Inr (JBool False) \<and>
   phone_js (Prim (JStr ''+12345678901'')) = Inr JNull \<and>
   phone_js (Prim (JStr ''0123'')) = Inr (JStr ''Please enter a valid phone number'') \<and>
   phone_js (Prim (JStr ''abc'')) = Inr (JStr ''Please enter a valid phone number'')"
  by code_simp

section \<open>Claims about the network client\<close>

lemma make_config_headers:
  "cfg_headers (make_config opts) =
     (case opt_headers opts of
        Some oh \<Rightarrow> oh
      | None \<Rightarrow> [(''Content-Type'', ''application/json'')])"
  by (simp add: make_config_def spread_options_def spread_def split: option.splits)

text \<open>What the four verbs hand to the transport.\<close>

lemma verbs_request:
  "api_get fetch stringify base p lg =
     log_and_rethrow (try_fetch fetch (to_string base @ p)
       \<lparr>cfg_headers = [(''Content-Type'', ''application/json'')], cfg_method = Some ''GET'',
        cfg_body = None\<rparr>) lg"
  "api_delete fetch stringify base p lg =
     log_and_rethrow (try_fetch fetch (to_string base @ p)
       \<lparr>cfg_headers = [(''Content-Type'', ''application/json'')], cfg_method = Some ''DELETE'',
        cfg_body = None\<rparr>) lg"
  "get_js fetch base p lg =
     log_and_rethrow (try_fetch fetch (to_string base @ p)
       \<lparr>cfg_headers = [(''Content-Type'', ''application/json'')], cfg_method = None,
        cfg_body = None\<rparr>) lg"
  "delete_js fetch base p lg =
     log_and_rethrow (try_fetch fetch (to_string base @ p)
       \<lparr>cfg_headers = [(''Content-Type'', ''application/json'')], cfg_method = Some ''DELETE'',
        cfg_body = None\<rparr>) lg"
  by (simp_all add: api_get_def api_delete_def get_js_def delete_js_def request_def
      request_js_def make_config_def spread_options_def spread_def stringify_body_def
      no_options_def)

lemma verbs_with_body_request:
  "api_post fetch stringify base p data lg =
     log_and_rethrow (try_fetch fetch (to_string base @ p)
       (stringify_body stringify
          \<lparr>cfg_headers = [(''Content-Type'', ''application/json'')], cfg_method = Some ''POST'',
           cfg_body = data\<rparr>)) lg"
  "api_put fetch stringify base p data lg =
     log_and_rethrow (try_fetch fetch (to_string base @ p)
       (stringify_body stringify
          \<lparr>cfg_headers = [(''Content-Type'', ''application/json'')], cfg_method = Some ''PUT'',
           cfg_body = data\<rparr>)) lg"
  "post_js fetch stringify base p data lg =
     log_and_rethrow (try_fetch fetch (to_string base @ p)
       \<lparr>cfg_headers = [(''Content-Type'', ''application/json'')], cfg_method = Some ''POST'',
        cfg_body = map_option (\<lambda>d. JsStr (stringify d)) data\<rparr>) lg"
  "put_js fetch stringify base p data lg =
     log_and_rethrow (try_fetch fetch (to_string base @ p)
       \<lparr>cfg_headers = [(''Content-Type'', ''application/json'')], cfg_method = Some ''PUT'',
        cfg_body = map_option (\<lambda>d. JsStr (stringify d)) data\<rparr>) lg"
  by (simp_all add: api_post_def api_put_def post_js_def put_js_def request_def request_js_def
      make_config_def spread_options_def spread_def no_options_def)

text \<open>
  C3. The request goes to the base URL followed by the endpoint, and the four verbs,
  which pass no headers, send the default header. But \<open>request\<close> with caller-supplied
  headers hands the transport the caller's headers alone: the merged map that the
  \<open>headers\<close> entry builds is overwritten by the spread of \<open>options\<close> after it. Here the
  transport echoes the URL and the headers it receives.
\<close>

theorem request_drops_default_header:
  "request echo stringify (JStr ''http://host'') ''/x''
     \<lparr>opt_headers = Some [(''Authorization'', ''token'')], opt_method = None, opt_body = None\<rparr> []
     = (Inr (JsObj [(''url'', JsStr ''http://host/x''),
                    (''headers'', JsObj [(''Authorization'', JsStr ''token'')])]), []) \<and>
   request_js echo (JStr ''http://host'') ''/x''
     \<lparr>opt_headers = Some [(''Authorization'', ''token'')], opt_method = None, opt_body = None\<rparr> []
     = (Inr (JsObj [(''url'', JsStr ''http://host/x''),
                    (''headers'', JsObj [(''Authorization'', JsStr ''token'')])]), []) \<and>
   spread [(''Content-Type'', ''application/json'')] [(''Authorization'', ''token'')]
     = [(''Content-Type'', ''application/json''), (''Authorization'', ''token'')] \<and>
   api_get echo stringify (JStr ''http://host'') ''/x'' []
     = (Inr (JsObj [(''url'', JsStr ''http://host/x''),
                    (''headers'', JsObj [(''Content-Type'', JsStr ''application/json'')])]), [])"
  by (simp add: request_def request_js_def api_get_def echo_def make_config_def spread_options_def
      spread_def stringify_body_def try_fetch_def log_and_rethrow_def no_options_def)

text \<open>
  C4, as the specification states it, fails for a response with a success status whose
  body is not JSON, as the empty body of a 204: \<open>response.json()\<close> rejects, and the call
  fails with the parser's error, which it logs, instead of resolving.
\<close>

theorem request_fails_on_bad_status_counterexample:
  "ok \<lparr>ok = True, status = 204, json_body = Inl SyntaxError\<rparr> \<and>
   api_get (answer \<lparr>ok = True, status = 204, json_body = Inl SyntaxError\<rparr>) no_text
       (JStr ''http://host'') ''/x'' []
     = (Inl SyntaxError, [SyntaxError]) \<and>
   get_js (answer \<lparr>ok = True, status = 204, json_body = Inl SyntaxError\<rparr>)
       (JStr ''http://host'') ''/x'' []
     = (Inl SyntaxError, [SyntaxError])"
  by (simp add: api_get_def get_js_def request_def request_js_def try_fetch_def log_and_rethrow_def
      answer_def)

text \<open>
  C4, amended. When the transport answers with a response whose \<open>ok\<close> flag is false, the
  call fails with the error \<open>HTTP error! status: <status>\<close>, which carries the status, and
  the log gains exactly this error, once; the same error is thrown again unchanged. When
  the flag is true and the body parses as JSON, the call resolves with the parsed body
  and logs nothing; when the flag is true and the body does not parse, the call fails
  with the error of the parser and the log gains this error, once. This holds for
  \<open>request\<close> and, through it, for the four verbs, in both files.
\<close>

theorem request_fails_on_bad_status:
  "(fetch (to_string base @ p) (stringify_body stringify (make_config opts)) = Inr resp \<longrightarrow>
      (\<not> ok resp \<longrightarrow>
         request fetch stringify base p opts lg =
           (Inl (Error (''HTTP error! status: '' @ decimal (uint (status resp)))),
            lg @ [Error (''HTTP error! status: '' @ decimal (uint (status resp)))])) \<and>
      (ok resp \<and> json_body resp = Inr v \<longrightarrow>
         request fetch stringify base p opts lg = (Inr v, lg)) \<and>
      (ok resp \<and> json_body resp = Inl e \<longrightarrow>
         request fetch stringify base p opts lg = (Inl e, lg @ [e]))) \<and>
   (fetch (to_string base @ p) (make_config opts) = Inr resp \<longrightarrow>
      (\<not> ok resp \<longrightarrow>
         request_js fetch base p opts lg =
           (Inl (Error (''HTTP error! status: '' @ decimal (uint (status resp)))),
            lg @ [Error (''HTTP error! status: '' @ decimal (uint (status resp)))])) \<and>
      (ok resp \<and> json_body resp = Inr v \<longrightarrow>
         request_js fetch base p opts lg = (Inr v, lg)) \<and>
      (ok resp \<and> json_body resp = Inl e \<longrightarrow>
         request_js fetch base p opts lg = (Inl e, lg @ [e]))) \<and>
   ((\<forall>url cfg. fetch url cfg = Inr resp) \<longrightarrow>
      (\<not> ok resp \<longrightarrow>
         (\<forall>call \<in> {api_get fetch stringify base p lg, api_post fetch stringify base p data lg,
                     api_put fetch stringify base p data lg, api_delete fetch stringify base p lg,
                     get_js fetch base p lg, post_js fetch stringify base p data lg,
                     put_js fetch stringify base p data lg, delete_js fetch base p lg}.
            call = (Inl (Error (''HTTP error! status: '' @ decimal (uint (status resp)))),
                    lg @ [Error (''HTTP error! status: '' @ decimal (uint (status resp)))]))) \<and>
      (ok resp \<and> json_body resp = Inr v \<longrightarrow>
         (\<forall>call \<in> {api_get fetch stringify base p lg, api_post fetch stringify base p data lg,
                     api_put fetch stringify base p data lg, api_delete fetch stringify base p lg,
                     get_js fetch base p lg, post_js fetch stringify base p data lg,
                     put_js fetch stringify base p data lg, delete_js fetch base p lg}.
            call = (Inr v, lg))) \<and>
      (ok resp \<and> json_body resp = Inl e \<longrightarrow>
         (\<forall>call \<in> {api_get fetch stringify base p lg, api_post fetch stringify base p data lg,
                     api_put fetch stringify base p data lg, api_delete fetch stringify base p lg,
                     get_js fetch base p lg, post_js fetch stringify base p data lg,
                     put_js fetch stringify base p data lg, delete_js fetch base p lg}.
            call = (Inl e, lg @ [e]))))"
  by (simp add: request_def request_js_def api_get_def api_post_def api_put_def api_delete_def
      get_js_def post_js_def put_js_def delete_js_def try_fetch_def log_and_rethrow_def)

theorem request_fails_on_bad_status_witness:
  "\<not> ok \<lparr>ok = False, status = 404, json_body = Inl SyntaxError\<rparr> \<and>
   api_get (answer \<lparr>ok = False, status = 404, json_body = Inl SyntaxError\<rparr>) no_text
       (JStr ''http://host'') ''/x'' []
     = (Inl (Error ''HTTP error! status: 404''), [Error ''HTTP error! status: 404'']) \<and>
   get_js (answer \<lparr>ok = False, status = 404, json_body = Inl SyntaxError\<rparr>)
       (JStr ''http://host'') ''/x'' []
     = (Inl (Error ''HTTP error! status: 404''), [Error ''HTTP error! status: 404'']) \<and>
   ok \<lparr>ok = True, status = 200, json_body = Inr (JsObj [(''a'', JsNum 1)])\<rparr> \<and>
   api_get (answer \<lparr>ok = True, status = 200, json_body = Inr (JsObj [(''a'', JsNum 1)])\<rparr>) no_text
       (JStr ''http://host'') ''/x'' []
     = (Inr (JsObj [(''a'', JsNum 1)]), []) \<and>
   get_js (answer \<lparr>ok = True, status = 200, json_body = Inr (JsObj [(''a'', JsNum 1)])\<rparr>)
       (JStr ''http://host'') ''/x'' []
     = (Inr (JsObj [(''a'', JsNum 1)]), []) \<and>
   ok \<lparr>ok = True, status = 204, json_body = Inl SyntaxError\<rparr> \<and>
   api_delete (answer \<lparr>ok = True, status = 204, json_body = Inl SyntaxError\<rparr>) no_text
       (JStr ''http://host'') ''/x'' []
     = (Inl SyntaxError, [SyntaxError]) \<and>
   delete_js (answer \<lparr>ok = True, status = 204, json_body = Inl SyntaxError\<rparr>)
       (JStr ''http://host'') ''/x'' []
     = (Inl SyntaxError, [SyntaxError])"
proof -
  let ?r404 = "\<lparr>ok = False, status = 404, json_body = Inl SyntaxError\<rparr>"
  let ?r200 = "\<lparr>ok = True, status = 200, json_body = Inr (JsObj [(''a'', JsNum 1)])\<rparr>"
  let ?r204 = "\<lparr>ok = True, status = 204, json_body = Inl SyntaxError\<rparr>"
  note bad = request_fails_on_bad_status
    [where fetch = "answer ?r404" and resp = ?r404 and stringify = no_text
       and base = "JStr ''http://host''" and p = "''/x''" and lg = "[]" and data = None
       and opts = no_options]
  note good = request_fails_on_bad_status
    [where fetch = "answer ?r200" and resp = ?r200 and stringify = no_text
       and base = "JStr ''http://host''" and p = "''/x''" and lg = "[]" and data = None
       and opts = no_options and v = "JsObj [(''a'', JsNum 1)]"]
  note empty = request_fails_on_bad_status
    [where fetch = "answer ?r204" and resp = ?r204 and stringify = no_text
       and base = "JStr ''http://host''" and p = "''/x''" and lg = "[]" and data = None
       and opts = no_options and e = SyntaxError]
  have n: "decimal (uint (404 :: 16 word)) = ''404''" by code_simp
  from bad good empty n show ?thesis by (simp add: answer_def)
qed

section \<open>The document tree under the helpers\<close>

subsection \<open>Lookup after a mutation\<close>

lemma find_map_node:
  assumes f: "\<And>e ks. f (Elem e ks) = Elem (g e) ks" and P: "\<And>e. P (g e) = P e"
  shows "find_node P (map_node u f x) =
           map_option (\<lambda>e. if uid e = u then g e else e) (find_node P x)"
    and "find_forest P (map (map_node u f) xs) =
           map_option (\<lambda>e. if uid e = u then g e else e) (find_forest P xs)"
  using P
proof (induction P x and P xs rule: find_node_find_forest.induct)
  case (1 P s)
  show ?case by simp
next
  case (2 P e ks)
  then show ?case by (simp add: f)
next
  case (3 P)
  show ?case by simp
next
  case (4 P x xs)
  then show ?case by (cases "find_node P x") simp_all
qed

lemma find_page_update:
  assumes "\<And>e ks. f (Elem e ks) = Elem (g e) ks" and "\<And>e. P (g e) = P e"
  shows "find_page P (update_elem u f p) =
           map_option (\<lambda>e. if uid e = u then g e else e) (find_page P p)"
  unfolding find_page_def update_elem_def
  by (cases "find_forest P (head p)") (simp_all add: find_map_node(2) [of f g P, OF assms])

lemma find_page_fields [simp]:
  "find_page P (p\<lparr>overflow := v\<rparr>) = find_page P p"
  by (simp add: find_page_def split: option.splits)

lemma getElementById_update:
  assumes "\<And>e ks. f (Elem e ks) = Elem (g e) ks" and "\<And>e. ident (g e) = ident e"
  shows "getElementById i (update_elem u f p) =
           map_option (\<lambda>e. if uid e = u then g e else e) (getElementById i p)"
  unfolding getElementById_def
  by (simp add: find_page_update [of f g, OF assms(1)] assms(2))

lemma getElementById_overflow [simp]:
  "getElementById i (p\<lparr>overflow := v\<rparr>) = getElementById i p"
  by (simp add: getElementById_def)

text \<open>Showing and then hiding a modal that exists.\<close>

lemma show_then_hide:
  assumes "getElementById i p = Some modal"
  shows "\<exists>q modal'.
     and_then (Modal_show i) (Modal_hide i) p = (None, q) \<and> overflow q = ''auto'' \<and>
     getElementById i q = Some modal' \<and> uid modal' = uid modal \<and>
     ''hidden'' \<in> set (classList modal')"
proof -
  let ?g1 = "\<lambda>e. e\<lparr>classList := removeAll ''hidden'' (classList e)\<rparr>"
  let ?g2 = "\<lambda>e. if ''hidden'' \<in> set (classList e) then e
                  else e\<lparr>classList := classList e @ [''hidden'']\<rparr>"
  let ?p1 = "(update_elem (uid modal) (classList_remove ''hidden'') p)\<lparr>overflow := ''hidden''\<rparr>"
  let ?q = "(update_elem (uid modal) (classList_add ''hidden'') ?p1)\<lparr>overflow := ''auto''\<rparr>"
  have s: "Modal_show i p = (None, ?p1)"
    using assms by (simp add: Modal_show_def DOM_get_def DOM_show_def resolve_def)
  have g1: "getElementById i ?p1 = Some (?g1 modal)"
    using assms
    by (simp add: getElementById_update [of "classList_remove ''hidden''" ?g1])
  have h: "Modal_hide i ?p1 = (None, ?q)"
    using g1 by (simp add: Modal_hide_def DOM_get_def DOM_hide_def resolve_def)
  have g2: "getElementById i ?q = Some (?g2 (?g1 modal))"
    using g1
    by (simp add: getElementById_update [of "classList_add ''hidden''" ?g2])
  have "and_then (Modal_show i) (Modal_hide i) p = (None, ?q)"
    by (simp add: and_then_def s h)
  moreover have "overflow ?q = ''auto''" by simp
  moreover have "uid (?g2 (?g1 modal)) = uid modal" by simp
  moreover have "''hidden'' \<in> set (classList (?g2 (?g1 modal)))" by simp
  ultimately show ?thesis using g2 by blast
qed

lemma open_then_close:
  assumes "getElementById i p = Some modal"
  shows "\<exists>q modal'.
     and_then (openModal i) (closeModal i) p = (None, q) \<and> overflow q = ''auto'' \<and>
     getElementById i q = Some modal' \<and> uid modal' = uid modal \<and>
     ''hidden'' \<in> set (classList modal')"
proof -
  let ?g1 = "\<lambda>e. e\<lparr>classList := removeAll ''hidden'' (classList e)\<rparr>"
  let ?g2 = "\<lambda>e. if ''hidden'' \<in> set (classList e) then e
                  else e\<lparr>classList := classList e @ [''hidden'']\<rparr>"
  let ?p1 = "(update_elem (uid modal) (classList_remove ''hidden'') p)\<lparr>overflow := ''hidden''\<rparr>"
  let ?q = "(update_elem (uid modal) (classList_add ''hidden'') ?p1)\<lparr>overflow := ''auto''\<rparr>"
  have s: "openModal i p = (None, ?p1)"
    using assms by (simp add: openModal_def)
  have g1: "getElementById i ?p1 = Some (?g1 modal)"
    using assms
    by (simp add: getElementById_update [of "classList_remove ''hidden''" ?g1])
  have h: "closeModal i ?p1 = (None, ?q)"
    using g1 by (simp add: closeModal_def)
  have g2: "getElementById i ?q = Some (?g2 (?g1 modal))"
    using g1
    by (simp add: getElementById_update [of "classList_add ''hidden''" ?g2])
  have "and_then (openModal i) (closeModal i) p = (None, ?q)"
    by (simp add: and_then_def s h)
  moreover have "overflow ?q = ''auto''" by simp
  moreover have "uid (?g2 (?g1 modal)) = uid modal" by simp
  moreover have "''hidden'' \<in> set (classList (?g2 (?g1 modal)))" by simp
  ultimately show ?thesis using g2 by blast
qed

subsection \<open>Counting the marker style elements\<close>

lemma build_marker_free:
  "marker_free h \<Longrightarrow> count_node is_marker_style (fst (build h n)) = 0"
  "list_all marker_free hs \<Longrightarrow>
     sum_list (map (count_node is_marker_style) (fst (build_all hs n))) = 0"
proof (induction h n and hs n rule: build_build_all.induct)
  case (1 s n)
  show ?case by simp
next
  case (2 t i cs hs n)
  then show ?case by (auto simp: is_marker_style_def split: prod.splits)
next
  case (3 n)
  show ?case by simp
next
  case (4 h hs n)
  then show ?case by (auto split: prod.splits)
qed

lemma find_none_count:
  assumes "\<And>e. Q e \<Longrightarrow> P e"
  shows "find_node P x = None \<Longrightarrow> count_node Q x = 0"
    and "find_forest P xs = None \<Longrightarrow> sum_list (map (count_node Q) xs) = 0"
  using assms
proof (induction P x and P xs rule: find_node_find_forest.induct)
  case (1 P s)
  show ?case by simp
next
  case (2 P e ks)
  then show ?case by (auto split: if_splits)
next
  case (3 P)
  show ?case by simp
next
  case (4 P x xs)
  then show ?case by (auto split: option.splits)
qed

lemma sum_list_filter_le:
  "sum_list (map f (filter Q xs)) \<le> sum_list (map (f :: 'a \<Rightarrow> nat) xs)"
  by (induction xs) auto

lemma count_remove_node: "count_node P (remove_node u x) \<le> count_node P x"
proof (induction u x rule: remove_node.induct)
  case (1 u s)
  show ?case by simp
next
  case (2 u e ks)
  have "sum_list (map (count_node P) (map (remove_node u) (filter (\<lambda>k. \<not> has_uid u k) ks)))
      \<le> sum_list (map (count_node P) (filter (\<lambda>k. \<not> has_uid u k) ks))"
    unfolding map_map comp_def
    by (rule sum_list_mono) (use 2 in auto)
  also have "\<dots> \<le> sum_list (map (count_node P) ks)"
    by (rule sum_list_filter_le)
  finally show ?case by simp
qed

lemma count_remove_forest:
  "sum_list (map (count_node P) (remove_forest u xs)) \<le> sum_list (map (count_node P) xs)"
proof -
  have "sum_list (map (count_node P) (remove_forest u xs))
      \<le> sum_list (map (count_node P) (filter (\<lambda>k. \<not> has_uid u k) xs))"
    unfolding remove_forest_def map_map comp_def
    by (rule sum_list_mono) (simp add: count_remove_node)
  also have "\<dots> \<le> sum_list (map (count_node P) xs)"
    by (rule sum_list_filter_le)
  finally show ?thesis .
qed

lemma count_remove_elem: "count_page P (remove_elem u p) \<le> count_page P p"
  unfolding count_page_def remove_elem_def
  using count_remove_forest [of P u "head p"] count_remove_forest [of P u "body p"]
  by simp

lemma count_page_fields [simp]:
  "count_page P (p\<lparr>fresh := n\<rparr>) = count_page P p"
  "count_page P (p\<lparr>timers := ts\<rparr>) = count_page P p"
  "count_page P (p\<lparr>overflow := v\<rparr>) = count_page P p"
  by (simp_all add: count_page_def)

lemma querySelector_fields [simp]:
  "querySelector sel (p\<lparr>fresh := n\<rparr>) = querySelector sel p"
  by (simp add: querySelector_def find_page_def split: option.splits)

lemma no_marker_count:
  assumes "querySelector (ById ''notification-styles'') p = None"
  shows "count_page is_marker_style p = 0"
proof -
  have imp: "is_marker_style e \<Longrightarrow> selects (ById ''notification-styles'') e" for e
    by (simp add: is_marker_style_def)
  from assms have "find_forest (selects (ById ''notification-styles'')) (head p) = None"
    and "find_forest (selects (ById ''notification-styles'')) (body p) = None"
    by (auto simp: querySelector_def find_page_def split: option.splits)
  then show ?thesis
    using find_none_count(2) [of is_marker_style "selects (ById ''notification-styles'')", OF imp]
    by (simp add: count_page_def)
qed

text \<open>The style element that \<open>inject_styles\<close> appends, with the identity it takes.\<close>

lemma style_create:
  "DOM_create ''style'' [Attribute ''id'' ''notification-styles''] [] n =
     ((\<lparr>uid = n, tagName = ''style'', ident = Some ''notification-styles'', classList = [],
        attrs = [], disabled = False\<rparr>, []), Suc n)"
  by (simp add: DOM_create_def)

lemma inject_styles_cases:
  "inject_styles p =
     (if querySelector (ById ''notification-styles'') p = None
      then p\<lparr>head := head p @
                [Elem \<lparr>uid = fresh p, tagName = ''style'', ident = Some ''notification-styles'',
                       classList = [], attrs = [], disabled = False\<rparr>
                   (text_kids notification_css)],
             fresh := Suc (fresh p)\<rparr>
      else p)"
  by (simp add: inject_styles_def style_create split: option.splits)

lemma notification_css_nonempty: "text_kids notification_css = [Text notification_css]"
  by (simp add: text_kids_def notification_css_def)

lemma count_inject_styles:
  "count_page is_marker_style p \<le> 1 \<Longrightarrow> count_page is_marker_style (inject_styles p) \<le> 1"
proof (cases "querySelector (ById ''notification-styles'') p = None")
  case True
  then have "count_page is_marker_style p = 0" by (rule no_marker_count)
  with True show ?thesis
    by (simp add: inject_styles_cases count_page_def is_marker_style_def notification_css_nonempty)
next
  case False
  then have "inject_styles p = p" by (auto simp: inject_styles_cases)
  moreover assume "count_page is_marker_style p \<le> 1"
  ultimately show ?thesis by simp
qed

lemma notification_create:
  "DOM_create ''div'' [ClassName c, InnerHTML message] [] n =
     ((\<lparr>uid = n, tagName = ''div'', ident = None, classList = class_tokens c, attrs = [],
        disabled = False\<rparr>, fst (build_all message (Suc n))), snd (build_all message (Suc n)))"
  by (simp add: DOM_create_def split: prod.splits)

lemma Notification_show_eq:
  "Notification_show message type duration p =
     (let n = snd (build_all message (Suc (fresh p)));
          p1 = inject_styles (p\<lparr>fresh := n\<rparr>)
      in p1\<lparr>body := body p1 @
               [Elem \<lparr>uid = fresh p, tagName = ''div'', ident = None,
                      classList = class_tokens (''notification notification-'' @
                         (case type of None \<Rightarrow> ''info'' | Some t \<Rightarrow> t)),
                      attrs = [], disabled = False\<rparr>
                  (fst (build_all message (Suc (fresh p))))],
             timers := timers p1 @
               [(fresh p, case duration of None \<Rightarrow> 3000 | Some d \<Rightarrow> d)]\<rparr>)"
  by (simp add: Notification_show_def notification_create Let_def)

lemma count_Notification_show:
  assumes "count_page is_marker_style p \<le> 1" and "list_all marker_free message"
  shows "count_page is_marker_style (Notification_show message type duration p) \<le> 1"
proof -
  let ?n = "snd (build_all message (Suc (fresh p)))"
  let ?p1 = "inject_styles (p\<lparr>fresh := ?n\<rparr>)"
  have "count_page is_marker_style ?p1 \<le> 1"
    using assms(1) by (intro count_inject_styles) simp
  moreover have "sum_list (map (count_node is_marker_style)
      (fst (build_all message (Suc (fresh p))))) = 0"
    using assms(2) by (rule build_marker_free(2))
  moreover have "count_page is_marker_style (Notification_show message type duration p) =
      count_page is_marker_style ?p1 +
      sum_list (map (count_node is_marker_style) (fst (build_all message (Suc (fresh p)))))"
    by (simp add: Notification_show_eq Let_def count_page_def is_marker_style_def)
  ultimately show ?thesis by linarith
qed

lemma count_step:
  "count_page is_marker_style p \<le> 1 \<Longrightarrow> event_marker_free ev \<Longrightarrow>
   count_page is_marker_style (step ev p) \<le> 1"
proof (cases ev)
  case (Show message type duration)
  assume "count_page is_marker_style p \<le> 1" "event_marker_free ev"
  with Show have "count_page is_marker_style (Notification_show message type duration p) \<le> 1"
    by (intro count_Notification_show) simp_all
  with Show show ?thesis by simp
next
  case (Timeout u)
  assume a: "count_page is_marker_style p \<le> 1"
  have "count_page is_marker_style
      (remove_elem u (p\<lparr>timers := filter (\<lambda>(k, d). k \<noteq> u) (timers p)\<rparr>))
      \<le> count_page is_marker_style (p\<lparr>timers := filter (\<lambda>(k, d). k \<noteq> u) (timers p)\<rparr>)"
    by (rule count_remove_elem)
  with a Timeout show ?thesis by simp
qed

lemma count_run:
  "count_page is_marker_style p \<le> 1 \<Longrightarrow> \<forall>ev\<in>set evs. event_marker_free ev \<Longrightarrow>
   count_page is_marker_style (run evs p) \<le> 1"
  unfolding run_def
proof (induction evs arbitrary: p)
  case Nil
  then show ?case by simp
next
  case (Cons ev evs)
  from Cons.prems have "count_page is_marker_style (step ev p) \<le> 1"
    by (intro count_step) simp_all
  with Cons.prems Cons.IH [of "step ev p"] show ?case by simp
qed

section \<open>Claims about the UI helpers\<close>

text \<open>
  C6, as the specification states it, fails: with a modal present and the body's
  overflow style \<open>hidden\<close> (or empty) before the call, showing and then hiding the modal
  leaves the style \<open>auto\<close>.
\<close>

theorem modal_show_then_hide_counterexample:
  "overflow (modal_page ''hidden'') = ''hidden'' \<and>
   overflow (snd (and_then (Modal_show ''m'') (Modal_hide ''m'') (modal_page ''hidden''))) = ''auto'' \<and>
   overflow (snd (and_then (openModal ''m'') (closeModal ''m'') (modal_page ''hidden''))) = ''auto'' \<and>
   overflow (modal_page '''') = '''' \<and>
   overflow (snd (and_then (Modal_show ''m'') (Modal_hide ''m'') (modal_page ''''))) = ''auto'' \<and>
   overflow (snd (and_then (openModal ''m'') (closeModal ''m'') (modal_page ''''))) = ''auto''"
  by code_simp

text \<open>
  C6, amended. For a modal id whose node is in the document, \<open>Modal.show\<close> followed by
  \<open>Modal.hide\<close> (and \<open>openModal\<close> followed by \<open>closeModal\<close>) raises nothing, leaves the
  body's overflow style \<open>auto\<close>, whatever it was before, and leaves the same modal node
  carrying the class \<open>hidden\<close>.
\<close>

theorem modal_show_then_hide:
  "getElementById i p = Some modal \<longrightarrow>
     (\<exists>q modal'.
        and_then (Modal_show i) (Modal_hide i) p = (None, q) \<and> overflow q = ''auto'' \<and>
        getElementById i q = Some modal' \<and> uid modal' = uid modal \<and>
        ''hidden'' \<in> set (classList modal')) \<and>
     (\<exists>q modal'.
        and_then (openModal i) (closeModal i) p = (None, q) \<and> overflow q = ''auto'' \<and>
        getElementById i q = Some modal' \<and> uid modal' = uid modal \<and>
        ''hidden'' \<in> set (classList modal'))"
  using show_then_hide [of i p modal] open_then_close [of i p modal] by blast

theorem modal_show_then_hide_witness:
  "getElementById ''m'' (modal_page ''auto'')
     = Some \<lparr>uid = 0, tagName = ''div'', ident = Some ''m'',
             classList = [''modal-overlay'', ''hidden''], attrs = [], disabled = False\<rparr> \<and>
   (\<exists>q modal'.
      and_then (Modal_show ''m'') (Modal_hide ''m'') (modal_page ''auto'') = (None, q) \<and>
      overflow q = ''auto'' \<and> getElementById ''m'' q = Some modal' \<and> uid modal' = 0 \<and>
      ''hidden'' \<in> set (classList modal')) \<and>
   (\<exists>q modal'.
      and_then (openModal ''m'') (closeModal ''m'') (modal_page ''auto'') = (None, q) \<and>
      overflow q = ''auto'' \<and> getElementById ''m'' q = Some modal' \<and> uid modal' = 0 \<and>
      ''hidden'' \<in> set (classList modal'))"
proof -
  have g: "getElementById ''m'' (modal_page ''auto'')
     = Some \<lparr>uid = 0, tagName = ''div'', ident = Some ''m'',
             classList = [''modal-overlay'', ''hidden''], attrs = [], disabled = False\<rparr>"
    by (simp add: getElementById_def find_page_def modal_page_def)
  from modal_show_then_hide [of "''m''" "modal_page ''auto''", THEN mp, OF g] g
  show ?thesis by simp
qed

text \<open>
  C7, as the specification states it, fails: with no matching node, \<open>DOM.show\<close>,
  \<open>DOM.hide\<close>, \<open>DOM.toggle\<close> and \<open>toggleSidebar\<close> raise a type error, and
  \<open>toggleSidebar\<close> on a page with a sidebar and no main content also changes the
  document before it raises.
\<close>

theorem helpers_missing_node_counterexample:
  "getElementById ''missing'' empty_page = None \<and>
   DOM_show (IdString ''missing'') empty_page = (Some TypeError, empty_page) \<and>
   DOM_hide (IdString ''missing'') empty_page = (Some TypeError, empty_page) \<and>
   DOM_toggle (IdString ''missing'') empty_page = (Some TypeError, empty_page) \<and>
   querySelector (ByClass ''sidebar'') empty_page = None \<and>
   toggleSidebar empty_page = (Some TypeError, empty_page) \<and>
   querySelector (ByClass ''main-content'') sidebar_page = None \<and>
   fst (toggleSidebar sidebar_page) = Some TypeError \<and>
   snd (toggleSidebar sidebar_page) \<noteq> sidebar_page"
  by (simp add: getElementById_def find_page_def empty_page_def sidebar_page_def DOM_show_def
      DOM_hide_def DOM_toggle_def resolve_def DOM_get_def querySelector_def toggleSidebar_def
      update_elem_def)

text \<open>
  C7, amended. For an id with no node in the document, \<open>Modal.show\<close>, \<open>Modal.hide\<close>,
  \<open>Loading.show\<close>, \<open>Loading.hide\<close>, \<open>openModal\<close> and \<open>closeModal\<close> raise nothing and
  leave the page as it is. \<open>DOM.show\<close>, \<open>DOM.hide\<close> and \<open>DOM.toggle\<close> called with such
  an id, and \<open>toggleSidebar\<close> without a \<open>.sidebar\<close> node, raise a type error and leave
  the page as it is; \<open>toggleSidebar\<close> with a \<open>.sidebar\<close> node and no \<open>.main-content\<close> node
  toggles the sidebar and then raises.
\<close>

theorem helpers_missing_node:
  "(getElementById i p = None \<longrightarrow>
      Modal_show i p = (None, p) \<and> Modal_hide i p = (None, p) \<and>
      Loading_show i p = (None, p) \<and> Loading_hide i content p = (None, p) \<and>
      openModal i p = (None, p) \<and> closeModal i p = (None, p) \<and>
      DOM_show (IdString i) p = (Some TypeError, p) \<and>
      DOM_hide (IdString i) p = (Some TypeError, p) \<and>
      DOM_toggle (IdString i) p = (Some TypeError, p)) \<and>
   (querySelector (ByClass ''sidebar'') p = None \<longrightarrow> toggleSidebar p = (Some TypeError, p)) \<and>
   (querySelector (ByClass ''sidebar'') p = Some sb \<and>
    querySelector (ByClass ''main-content'') p = None \<longrightarrow>
      toggleSidebar p = (Some TypeError, update_elem (uid sb) (classList_toggle ''open'') p))"
  by (simp add: Modal_show_def Modal_hide_def Loading_show_def Loading_hide_def openModal_def
      closeModal_def DOM_show_def DOM_hide_def DOM_toggle_def DOM_get_def resolve_def
      toggleSidebar_def)

theorem helpers_missing_node_witness:
  "getElementById ''missing'' sidebar_page = None \<and>
   Modal_show ''missing'' sidebar_page = (None, sidebar_page) \<and>
   Modal_hide ''missing'' sidebar_page = (None, sidebar_page) \<and>
   Loading_show ''missing'' sidebar_page = (None, sidebar_page) \<and>
   Loading_hide ''missing'' [HText ''Save''] sidebar_page = (None, sidebar_page) \<and>
   openModal ''missing'' sidebar_page = (None, sidebar_page) \<and>
   closeModal ''missing'' sidebar_page = (None, sidebar_page) \<and>
   DOM_show (IdString ''missing'') sidebar_page = (Some TypeError, sidebar_page) \<and>
   querySelector (ByClass ''sidebar'') empty_page = None \<and>
   toggleSidebar empty_page = (Some TypeError, empty_page) \<and>
   querySelector (ByClass ''sidebar'') sidebar_page
     = Some \<lparr>uid = 0, tagName = ''nav'', ident = None, classList = [''sidebar''],
             attrs = [], disabled = False\<rparr> \<and>
   querySelector (ByClass ''main-content'') sidebar_page = None \<and>
   toggleSidebar sidebar_page
     = (Some TypeError, update_elem 0 (classList_toggle ''open'') sidebar_page)"
proof -
  note a = helpers_missing_node
    [where i = "''missing''" and p = sidebar_page and content = "[HText ''Save'']"
       and sb = "\<lparr>uid = 0, tagName = ''nav'', ident = None, classList = [''sidebar''],
             attrs = [], disabled = False\<rparr>"]
  note b = helpers_missing_node [where p = empty_page]
  have g: "getElementById ''missing'' sidebar_page = None"
    "querySelector (ByClass ''sidebar'') empty_page = None"
    "querySelector (ByClass ''sidebar'') sidebar_page
       = Some \<lparr>uid = 0, tagName = ''nav'', ident = None, classList = [''sidebar''],
             attrs = [], disabled = False\<rparr>"
    "querySelector (ByClass ''main-content'') sidebar_page = None"
    by (simp_all add: getElementById_def querySelector_def find_page_def sidebar_page_def
        empty_page_def)
  from a b g show ?thesis by simp
qed

lemma find_forest_append:
  "find_forest P (xs @ ys) =
     (case find_forest P xs of Some e \<Rightarrow> Some e | None \<Rightarrow> find_forest P ys)"
  by (induction xs) (auto split: option.splits)

lemma marker_after_show:
  "querySelector (ById ''notification-styles'') (Notification_show message type duration p) \<noteq> None"
proof -
  let ?n = "snd (build_all message (Suc (fresh p)))"
  let ?p0 = "p\<lparr>fresh := ?n\<rparr>"
  have "querySelector (ById ''notification-styles'') (inject_styles ?p0) \<noteq> None"
    by (auto simp: inject_styles_cases querySelector_def find_page_def find_forest_append
        notification_css_nonempty split: option.splits)
  then show ?thesis
    by (auto simp: Notification_show_eq Let_def querySelector_def find_page_def
        find_forest_append split: option.splits)
qed

text \<open>
  C8, as the specification states it, fails: a single call whose message holds a
  \<open>style\<close> element with the marker id, on an empty page, leaves two such elements in
  the document.
\<close>

theorem notification_styles_counterexample:
  "count_page is_marker_style empty_page = 0 \<and>
   count_page is_marker_style
     (run [Show [HElem ''style'' (Some ''notification-styles'') [] []] None None] empty_page) = 2"
  by code_simp

text \<open>
  C8, amended. On a page with at most one \<open>style\<close> element of id \<open>notification-styles\<close>,
  after any sequence of \<open>Notification.show\<close> calls and timer removals whose messages hold
  no such element, there is still at most one. A call on a page where the selector
  \<open>#notification-styles\<close> matches nothing appends exactly the style element to \<open>head\<close>; a
  call on a page where it matches leaves \<open>head\<close> as it is; and after a call it matches.
\<close>

theorem notification_styles_once:
  "(count_page is_marker_style p \<le> 1 \<and> (\<forall>ev\<in>set evs. event_marker_free ev) \<longrightarrow>
      count_page is_marker_style (run evs p) \<le> 1) \<and>
   (querySelector (ById ''notification-styles'') p = None \<longrightarrow>
      (\<exists>u. head (Notification_show message type duration p) =
         head p @ [Elem \<lparr>uid = u, tagName = ''style'', ident = Some ''notification-styles'',
                         classList = [], attrs = [], disabled = False\<rparr>
                     [Text notification_css]])) \<and>
   (querySelector (ById ''notification-styles'') p = Some found \<longrightarrow>
      head (Notification_show message type duration p) = head p) \<and>
   querySelector (ById ''notification-styles'') (Notification_show message type duration p) \<noteq> None"
proof (intro conjI impI)
  assume "count_page is_marker_style p \<le> 1 \<and> (\<forall>ev\<in>set evs. event_marker_free ev)"
  then show "count_page is_marker_style (run evs p) \<le> 1"
    by (intro count_run) simp_all
next
  assume "querySelector (ById ''notification-styles'') p = None"
  then show "\<exists>u. head (Notification_show message type duration p) =
         head p @ [Elem \<lparr>uid = u, tagName = ''style'', ident = Some ''notification-styles'',
                         classList = [], attrs = [], disabled = False\<rparr>
                     [Text notification_css]]"
    by (simp add: Notification_show_eq Let_def inject_styles_cases notification_css_nonempty)
next
  assume "querySelector (ById ''notification-styles'') p = Some found"
  then show "head (Notification_show message type duration p) = head p"
    by (simp add: Notification_show_eq Let_def inject_styles_cases)
next
  show "querySelector (ById ''notification-styles'') (Notification_show message type duration p)
      \<noteq> None"
    by (rule marker_after_show)
qed

theorem notification_styles_once_witness:
  "count_page is_marker_style empty_page \<le> 1 \<and>
   event_marker_free (Show [HText ''hi''] (Some ''success'') (Some 10)) \<and>
   event_marker_free (Timeout 0) \<and>
   event_marker_free (Show [HElem ''b'' None [] [HText ''again'']] None None) \<and>
   count_page is_marker_style
     (run [Show [HText ''hi''] (Some ''success'') (Some 10), Timeout 0,
           Show [HElem ''b'' None [] [HText ''again'']] None None] empty_page) \<le> 1 \<and>
   querySelector (ById ''notification-styles'') empty_page = None \<and>
   (\<exists>u. head (Notification_show [HText ''hi''] (Some ''success'') (Some 10) empty_page) =
      head empty_page @
        [Elem \<lparr>uid = u, tagName = ''style'', ident = Some ''notification-styles'',
               classList = [], attrs = [], disabled = False\<rparr> [Text notification_css]]) \<and>
   querySelector (ById ''notification-styles'')
       (Notification_show [HText ''hi''] (Some ''success'') (Some 10) empty_page)
     = Some \<lparr>uid = 1, tagName = ''style'', ident = Some ''notification-styles'',
             classList = [], attrs = [], disabled = False\<rparr> \<and>
   head (Notification_show [HText ''again''] None None
          (Notification_show [HText ''hi''] (Some ''success'') (Some 10) empty_page))
     = head (Notification_show [HText ''hi''] (Some ''success'') (Some 10) empty_page)"
proof -
  let ?evs = "[Show [HText ''hi''] (Some ''success'') (Some 10), Timeout 0,
               Show [HElem ''b'' None [] [HText ''again'']] None None]"
  let ?p1 = "Notification_show [HText ''hi''] (Some ''success'') (Some 10) empty_page"
  let ?style = "\<lparr>uid = 1, tagName = ''style'', ident = Some ''notification-styles'',
                 classList = [], attrs = [], disabled = False\<rparr>"
  note first = notification_styles_once
    [where p = empty_page and evs = ?evs and message = "[HText ''hi'']"
       and type = "Some ''success''" and duration = "Some 10"]
  note second = notification_styles_once
    [where p = ?p1 and message = "[HText ''again'']" and type = None and duration = None
       and found = ?style]
  have c: "count_page is_marker_style empty_page \<le> 1"
    by (simp add: count_page_def empty_page_def)
  have q: "querySelector (ById ''notification-styles'') empty_page = None"
    by (simp add: querySelector_def find_page_def empty_page_def)
  have q1: "querySelector (ById ''notification-styles'') ?p1 = Some ?style"
    by (simp add: Notification_show_eq Let_def inject_styles_cases q notification_css_nonempty
        querySelector_def find_page_def empty_page_def)
  from first second c q q1 show ?thesis by simp
qed

end
